theory Spec2Isabelle
  imports Complex_Main "HOL-Library.Char_ord" "HOL-Library.List_Lexorder"
    "HOL-Library.Multiset"
begin

section \<open>JavaScript numbers and the conversion of strings to numbers\<close>

text \<open>
  The cash-drawer page keeps every count and amount as a string of the form's state and
  converts it with \<open>Number(...)\<close>. A JavaScript number is an IEEE 754 double: NaN,
  +Infinity, -Infinity, the negative zero \<open>NegZero\<close>, and the other finite doubles
  \<open>Fin r\<close> with their rational value \<open>r\<close> (\<open>Fin 0\<close> is the positive zero). An operation
  computes the exact rational result and rounds it to the nearest double, ties to the
  even mantissa; only doubles arise from \<open>Number\<close> and the operations. A string is a list
  of code units below 256.
\<close>

datatype jsnum = NaN | PInf | NInf | NegZero | Fin rat

subsection \<open>Rounding to the nearest double\<close>

definition pow2 :: "int \<Rightarrow> rat" where
  "pow2 e = (if 0 \<le> e then 2 ^ nat e else 1 / 2 ^ nat (- e))"

text \<open>The number of binary digits of a positive integer.\<close>

function bitLength :: "int \<Rightarrow> int" where
  "bitLength n = (if n \<le> 0 then 0 else 1 + bitLength (n div 2))"
  by pat_completeness auto
termination
  by (relation "measure nat") auto

declare bitLength.simps [simp del]

text \<open>
  The binary exponent of a positive rational \<open>a\<close>, that is the \<open>e\<close> with
  \<open>2^e \<le> a < 2^(e+1)\<close>: the digits of numerator and denominator give it up to one.
\<close>

definition exponentOf :: "rat \<Rightarrow> int" where
  "exponentOf a =
     (case quotient_of a of
        (p, q) \<Rightarrow> let e0 = bitLength p - bitLength q in if a < pow2 e0 then e0 - 1 else e0)"

definition roundHalfEven :: "rat \<Rightarrow> int" where
  "roundHalfEven m =
     (let f = \<lfloor>m\<rfloor>; d = m - of_int f
      in if d < 1 / 2 then f else if 1 / 2 < d then f + 1 else if even f then f else f + 1)"

text \<open>
  A double has 53 binary digits and exponents from -1022 to 1023; below \<open>2^-1022\<close> the
  doubles are the multiples of \<open>2^-1074\<close>. The nearest double of \<open>r\<close> is \<open>n * 2^q\<close> for
  the spacing \<open>2^q\<close> of the doubles at \<open>r\<close> and the integer \<open>n\<close> nearest to \<open>r / 2^q\<close>;
  from \<open>2^1024\<close> on it is an infinity. A result that rounds to zero is given here as the
  positive zero.
\<close>

definition nearestDouble :: "rat \<Rightarrow> jsnum" where
  "nearestDouble r =
     (if r = 0 then Fin 0
      else
        let a = \<bar>r\<bar>; e = exponentOf a in
        if 1023 < e then (if r < 0 then NInf else PInf)
        else
          let q = max e (- 1022) - 52; n = roundHalfEven (a / pow2 q) in
          if e = 1023 \<and> 9007199254740992 \<le> n then (if r < 0 then NInf else PInf)
          else Fin (if r < 0 then - (of_int n * pow2 q) else of_int n * pow2 q))"

text \<open>Rounding that keeps the sign of a result that underflows to zero.\<close>

definition roundSigned :: "rat \<Rightarrow> jsnum" where
  "roundSigned r =
     (case nearestDouble r of
        Fin s \<Rightarrow> if s = 0 \<and> r < 0 then NegZero else Fin s
      | x \<Rightarrow> x)"

subsection \<open>Classification, arithmetic and comparison\<close>

fun isNaN :: "jsnum \<Rightarrow> bool" where
  "isNaN NaN = True"
| "isNaN _ = False"

fun isInfinite :: "jsnum \<Rightarrow> bool" where
  "isInfinite PInf = True"
| "isInfinite NInf = True"
| "isInfinite _ = False"

fun isZero :: "jsnum \<Rightarrow> bool" where
  "isZero NegZero = True"
| "isZero (Fin r) = (r = 0)"
| "isZero _ = False"

fun signBit :: "jsnum \<Rightarrow> bool" where
  "signBit NInf = True"
| "signBit NegZero = True"
| "signBit (Fin r) = (r < 0)"
| "signBit _ = False"

fun finiteValue :: "jsnum \<Rightarrow> rat" where
  "finiteValue (Fin r) = r"
| "finiteValue _ = 0"

instantiation jsnum :: "{zero, plus, uminus, minus, times}"
begin

definition zero_jsnum :: jsnum where
  "zero_jsnum = Fin 0"

fun plus_jsnum :: "jsnum \<Rightarrow> jsnum \<Rightarrow> jsnum" where
  "plus_jsnum NaN _ = NaN"
| "plus_jsnum _ NaN = NaN"
| "plus_jsnum PInf NInf = NaN"
| "plus_jsnum NInf PInf = NaN"
| "plus_jsnum PInf _ = PInf"
| "plus_jsnum _ PInf = PInf"
| "plus_jsnum NInf _ = NInf"
| "plus_jsnum _ NInf = NInf"
| "plus_jsnum NegZero NegZero = NegZero"
| "plus_jsnum NegZero (Fin b) = Fin b"
| "plus_jsnum (Fin a) NegZero = Fin a"
| "plus_jsnum (Fin a) (Fin b) =
     (if b = 0 then Fin a else if a = 0 then Fin b
      else if a + b = 0 then Fin 0 else nearestDouble (a + b))"

fun uminus_jsnum :: "jsnum \<Rightarrow> jsnum" where
  "uminus_jsnum NaN = NaN"
| "uminus_jsnum PInf = NInf"
| "uminus_jsnum NInf = PInf"
| "uminus_jsnum NegZero = Fin 0"
| "uminus_jsnum (Fin a) = (if a = 0 then NegZero else Fin (- a))"

definition minus_jsnum :: "jsnum \<Rightarrow> jsnum \<Rightarrow> jsnum" where
  "minus_jsnum a b = a + (- b)"

definition times_jsnum :: "jsnum \<Rightarrow> jsnum \<Rightarrow> jsnum" where
  "times_jsnum a b =
     (if isNaN a \<or> isNaN b then NaN
      else if isInfinite a \<or> isInfinite b then
        (if isZero a \<or> isZero b then NaN else if signBit a \<noteq> signBit b then NInf else PInf)
      else if isZero a \<or> isZero b then (if signBit a \<noteq> signBit b then NegZero else Fin 0)
      else roundSigned (finiteValue a * finiteValue b))"

instance ..

end

text \<open>
  Addition: the sum of two doubles is a multiple of \<open>2^-1074\<close> and never underflows; an
  exact sum of zero is the positive zero unless both summands are the negative zero; a
  zero summand leaves the other summand as it is. Subtraction adds the negated number.
  Multiplication: the sign of the product is the exclusive or of the signs, and infinity
  times zero is NaN. The comparison \<open>x >= y\<close> is false when either side is NaN, and the
  two zeros are equal.
\<close>

fun js_ge :: "jsnum \<Rightarrow> jsnum \<Rightarrow> bool" where
  "js_ge NaN _ = False"
| "js_ge _ NaN = False"
| "js_ge PInf _ = True"
| "js_ge _ NInf = True"
| "js_ge NInf _ = False"
| "js_ge _ PInf = False"
| "js_ge a b = (finiteValue b \<le> finiteValue a)"

subsection \<open>StringToNumber\<close>

text \<open>
  \<open>Number(s)\<close> on a string follows the grammar of ECMAScript's StringNumericLiteral:
  white space is trimmed on both sides; the empty string is 0; a signed decimal literal
  (\<open>Infinity\<close>, or digits with an optional fraction and an optional exponent) or an
  unsigned binary, octal or hexadecimal integer literal has the double nearest to its
  value; every other string is NaN.
\<close>

definition isStrWhiteSpaceChar :: "char \<Rightarrow> bool" where
  "isStrWhiteSpaceChar c \<longleftrightarrow>
     c \<in> set [CHR 0x09, CHR 0x0A, CHR 0x0B, CHR 0x0C, CHR 0x0D, CHR 0x20, CHR 0xA0]"

definition trimString :: "string \<Rightarrow> string" where
  "trimString s = rev (dropWhile isStrWhiteSpaceChar (rev (dropWhile isStrWhiteSpaceChar s)))"

definition digitValue :: "char \<Rightarrow> nat option" where
  "digitValue c = map_of
     [(CHR ''0'', 0), (CHR ''1'', 1), (CHR ''2'', 2), (CHR ''3'', 3), (CHR ''4'', 4),
      (CHR ''5'', 5), (CHR ''6'', 6), (CHR ''7'', 7), (CHR ''8'', 8), (CHR ''9'', 9),
      (CHR ''a'', 10), (CHR ''b'', 11), (CHR ''c'', 12), (CHR ''d'', 13), (CHR ''e'', 14),
      (CHR ''f'', 15), (CHR ''A'', 10), (CHR ''B'', 11), (CHR ''C'', 12), (CHR ''D'', 13),
      (CHR ''E'', 14), (CHR ''F'', 15)] c"

definition isDigitOf :: "nat \<Rightarrow> char \<Rightarrow> bool" where
  "isDigitOf base c = (case digitValue c of None \<Rightarrow> False | Some v \<Rightarrow> v < base)"

definition digitsValue :: "nat \<Rightarrow> string \<Rightarrow> int" where
  "digitsValue base ds =
     foldl (\<lambda>acc c. acc * int base + (case digitValue c of None \<Rightarrow> 0 | Some v \<Rightarrow> int v)) 0 ds"

text \<open>A non-empty run of digits of the given base, read to the end of the string.\<close>

definition allDigits :: "nat \<Rightarrow> string \<Rightarrow> int option" where
  "allDigits base ds =
     (if ds \<noteq> [] \<and> list_all (isDigitOf base) ds then Some (digitsValue base ds) else None)"

text \<open>ExponentPart: \<open>e\<close> or \<open>E\<close>, an optional sign, decimal digits. No exponent is 0.\<close>

definition exponentPart :: "string \<Rightarrow> int option" where
  "exponentPart s =
     (case s of
        [] \<Rightarrow> Some 0
      | c # r \<Rightarrow>
          if c = CHR ''e'' \<or> c = CHR ''E'' then
            (case r of
               [] \<Rightarrow> None
             | d # r' \<Rightarrow>
                 if d = CHR ''-'' then map_option uminus (allDigits 10 r')
                 else if d = CHR ''+'' then allDigits 10 r'
                 else allDigits 10 r)
          else None)"

definition pow10 :: "int \<Rightarrow> rat" where
  "pow10 e = (if 0 \<le> e then 10 ^ nat e else 1 / 10 ^ nat (- e))"

text \<open>StrUnsignedDecimalLiteral.\<close>

definition unsignedDecimal :: "string \<Rightarrow> jsnum" where
  "unsignedDecimal s =
     (if s = ''Infinity'' then PInf
      else
        let ip = takeWhile (isDigitOf 10) s;
            r1 = dropWhile (isDigitOf 10) s;
            dot = (r1 \<noteq> [] \<and> hd r1 = CHR ''.'');
            fp = (if dot then takeWhile (isDigitOf 10) (tl r1) else []);
            r2 = (if dot then dropWhile (isDigitOf 10) (tl r1) else r1)
        in if ip = [] \<and> fp = [] then NaN
           else (case exponentPart r2 of
                   None \<Rightarrow> NaN
                 | Some e \<Rightarrow>
                     nearestDouble ((of_int (digitsValue 10 ip)
                                     + of_int (digitsValue 10 fp) / 10 ^ length fp) * pow10 e)))"

text \<open>NonDecimalIntegerLiteral: \<open>0b\<close>, \<open>0o\<close>, \<open>0x\<close> (either case) and digits; it takes no sign.\<close>

definition nonDecimalInteger :: "string \<Rightarrow> int option" where
  "nonDecimalInteger s =
     (case s of
        z # p # ds \<Rightarrow>
          if z \<noteq> CHR ''0'' then None
          else if p = CHR ''b'' \<or> p = CHR ''B'' then allDigits 2 ds
          else if p = CHR ''o'' \<or> p = CHR ''O'' then allDigits 8 ds
          else if p = CHR ''x'' \<or> p = CHR ''X'' then allDigits 16 ds
          else None
      | _ \<Rightarrow> None)"

definition Number :: "string \<Rightarrow> jsnum" where
  "Number str =
     (let s = trimString str in
      if s = [] then Fin 0
      else (case nonDecimalInteger s of
              Some n \<Rightarrow> nearestDouble (of_int n)
            | None \<Rightarrow>
                if hd s = CHR ''-'' then - unsignedDecimal (tl s)
                else if hd s = CHR ''+'' then unsignedDecimal (tl s)
                else unsignedDecimal s))"

subsection \<open>Number.prototype.toString on a non-negative integer\<close>

function toString :: "nat \<Rightarrow> string" where
  "toString n =
     (if n < 10 then [''0123456789'' ! n]
      else toString (n div 10) @ [''0123456789'' ! (n mod 10)])"
  by pat_completeness auto
termination
  by (relation "measure id") auto

declare toString.simps [simp del]

section \<open>Cash drawer (src/pages/CashDrawer.tsx)\<close>

record Denom =
  label :: string
  dvalue :: nat

definition DENOMS :: "Denom list" where
  "DENOMS =
     [\<lparr>label = ''$100'', dvalue = 100\<rparr>,
      \<lparr>label = ''$50'', dvalue = 50\<rparr>,
      \<lparr>label = ''$20'', dvalue = 20\<rparr>,
      \<lparr>label = ''$10'', dvalue = 10\<rparr>,
      \<lparr>label = ''$5'', dvalue = 5\<rparr>,
      \<lparr>label = ''$1'', dvalue = 1\<rparr>]"

text \<open>
  \<open>counts[key] || "0"\<close>: a missing entry (\<open>undefined\<close>) and the empty string are falsy
  and give \<open>"0"\<close>.
\<close>

definition rawCount :: "(string \<rightharpoonup> string) \<Rightarrow> string \<Rightarrow> string" where
  "rawCount counts key =
     (case counts key of None \<Rightarrow> ''0'' | Some s \<Rightarrow> if s = [] then ''0'' else s)"

text \<open>The callback of \<open>DENOMS.reduce\<close> and the reduction from 0, left to right.\<close>

definition totalStep :: "(string \<rightharpoonup> string) \<Rightarrow> jsnum \<Rightarrow> Denom \<Rightarrow> jsnum" where
  "totalStep counts acc d =
     (let raw = rawCount counts (toString (dvalue d));
          num = Number raw
      in if isNaN num then acc else acc + num * Fin (of_nat (dvalue d)))"

definition computeTotal :: "(string \<rightharpoonup> string) \<Rightarrow> jsnum" where
  "computeTotal counts = foldl (totalStep counts) (Fin 0) DENOMS"

text \<open>
  The component's derived values: \<open>Number(stallFee || 0)\<close> (the empty string is falsy and
  gives the number 0), the same for payouts, and
  \<open>netCash = closingTotal - openingTotal - stallFeeNum - payoutsNum\<close>.
\<close>

definition amountNum :: "string \<Rightarrow> jsnum" where
  "amountNum s = (if s = [] then Fin 0 else Number s)"

definition netCashOf :: "jsnum \<Rightarrow> jsnum \<Rightarrow> jsnum \<Rightarrow> jsnum \<Rightarrow> jsnum" where
  "netCashOf closingTotal openingTotal stallFeeNum payoutsNum =
     closingTotal - openingTotal - stallFeeNum - payoutsNum"

definition netCash :: "(string \<rightharpoonup> string) \<Rightarrow> (string \<rightharpoonup> string) \<Rightarrow> string \<Rightarrow> string \<Rightarrow> jsnum" where
  "netCash openingCounts closingCounts stallFee payouts =
     netCashOf (computeTotal closingCounts) (computeTotal openingCounts)
       (amountNum stallFee) (amountNum payouts)"

record CashSession =
  session_id :: string
  session_date :: string
  opening_total :: jsnum
  closing_total :: jsnum
  stall_fee :: jsnum
  payouts_total :: jsnum
  session_notes :: "string option"

text \<open>The Net column of the saved-sessions table.\<close>

definition net :: "CashSession \<Rightarrow> jsnum" where
  "net s = closing_total s - opening_total s - stall_fee s - payouts_total s"

text \<open>
  The row that \<open>handleSave\<close> inserts: \<open>x || 0\<close> on a number replaces the falsy numbers,
  the zeros and NaN, by 0; \<open>notes.trim() || null\<close> stores no notes for a blank text. The identifier
  is the one the store returns for the row.
\<close>

definition orZero :: "jsnum \<Rightarrow> jsnum" where
  "orZero x = (if isNaN x \<or> isZero x then Fin 0 else x)"

definition savedSession ::
  "string \<Rightarrow> string \<Rightarrow> (string \<rightharpoonup> string) \<Rightarrow> (string \<rightharpoonup> string) \<Rightarrow> string \<Rightarrow> string \<Rightarrow> string
     \<Rightarrow> CashSession" where
  "savedSession new_id date openingCounts closingCounts stallFee payouts notes =
     \<lparr>session_id = new_id,
      session_date = date,
      opening_total = computeTotal openingCounts,
      closing_total = computeTotal closingCounts,
      stall_fee = orZero (amountNum stallFee),
      payouts_total = orZero (amountNum payouts),
      session_notes = (if trimString notes = [] then None else Some (trimString notes))\<rparr>"

subsection \<open>The total as the specification words it\<close>

text \<open>
  The count of a denomination: the entry under the denomination's key read as a number,
  and 0 when the entry is missing, empty or not numeric. The total is the sum, from 0 and
  in the order of the denominations, of count times face value, in the arithmetic of
  the program's numbers.
\<close>

definition countOf :: "(string \<rightharpoonup> string) \<Rightarrow> string \<Rightarrow> jsnum" where
  "countOf counts key =
     (case counts key of
        None \<Rightarrow> Fin 0
      | Some s \<Rightarrow> if s = [] \<or> isNaN (Number s) then Fin 0 else Number s)"

definition total_spec :: "(string \<rightharpoonup> string) \<Rightarrow> jsnum" where
  "total_spec counts =
     Fin 0 + countOf counts ''100'' * Fin 100 + countOf counts ''50'' * Fin 50
     + countOf counts ''20'' * Fin 20 + countOf counts ''10'' * Fin 10
     + countOf counts ''5'' * Fin 5 + countOf counts ''1'' * Fin 1"

definition denomKeys :: "string list" where
  "denomKeys = [''100'', ''50'', ''20'', ''10'', ''5'', ''1'']"

text \<open>An entry that cannot lower the total: it is not numeric, or it is a number \<open>\<ge> 0\<close>.\<close>

definition entryNonNegative :: "(string \<rightharpoonup> string) \<Rightarrow> string \<Rightarrow> bool" where
  "entryNonNegative counts key =
     (isNaN (Number (rawCount counts key)) \<or> js_ge (Number (rawCount counts key)) (Fin 0))"

section \<open>Inventory (the dashboard and the inventory page)\<close>

text \<open>
  An inventory row as the inventory page declares it; the dashboard reads the same rows
  without the unit and the notes. Quantities and thresholds are the integers of the data
  model. The program holds them as doubles, which represent every integer of magnitude
  up to \<open>2^53\<close> and add two of them exactly when the sum is such an integer too.
\<close>

record InventoryItem =
  item_id :: string
  name :: string
  category :: string
  unit_label :: string
  quantity :: int
  reorder_threshold :: int
  item_notes :: "string option"

text \<open>\<open>isLow\<close> of src/pages/Dashboard.tsx and the dashboard's \<open>lowItems\<close>.\<close>

definition isLow :: "InventoryItem \<Rightarrow> bool" where
  "isLow item \<longleftrightarrow> reorder_threshold item > 0 \<and> quantity item \<le> reorder_threshold item"

definition lowItems :: "InventoryItem list \<Rightarrow> InventoryItem list" where
  "lowItems inventory = filter (\<lambda>i. isLow i) inventory"

text \<open>\<open>isLow\<close> of the inventory page, and its \<open>lowCount\<close>, which repeats the test inline.\<close>

definition isLow_Inventory :: "InventoryItem \<Rightarrow> bool" where
  "isLow_Inventory item \<longleftrightarrow>
     reorder_threshold item > 0 \<and> quantity item \<le> reorder_threshold item"

definition lowCount :: "InventoryItem list \<Rightarrow> nat" where
  "lowCount items =
     length (filter (\<lambda>item. reorder_threshold item > 0 \<and> quantity item \<le> reorder_threshold item)
       items)"

subsection \<open>The quick quantity adjustment\<close>

text \<open>
  \<open>adjustQuantity(item, delta)\<close> computes \<open>Math.max(0, item.quantity + delta)\<close>, asks the
  store to set the quantity of the rows whose id is the item's, and on success replaces
  the quantity of the local rows of that id. A failed request raises, the handler shows
  the message and changes no local row. The page is its local rows, the rows of the
  remote table, the id being updated and the messages shown; the answer of the store to
  the request is a parameter.
\<close>

record InventoryPage =
  items :: "InventoryItem list"
  store_rows :: "InventoryItem list"
  updatingQtyId :: "string option"
  alerts :: "string list"

datatype store_answer = Updated | Failed string

definition setQuantity :: "string \<Rightarrow> int \<Rightarrow> InventoryItem list \<Rightarrow> InventoryItem list" where
  "setQuantity ident newQty rows =
     map (\<lambda>i. if item_id i = ident then i\<lparr>quantity := newQty\<rparr> else i) rows"

text \<open>
  \<open>item.quantity + delta\<close> adds two doubles: the sum of the integers, rounded to the
  nearest double, which is an integer again. The page calls the adjustment with the
  deltas 1 and -1. Integers whose sum is beyond the largest double, where the program
  has an infinity that no integer quantity stands for, are outside the model: the sum
  of the integers is taken there.
\<close>

definition addNumbers :: "int \<Rightarrow> int \<Rightarrow> int" where
  "addNumbers a b = (case Fin (of_int a) + Fin (of_int b) of Fin r \<Rightarrow> \<lfloor>r\<rfloor> | _ \<Rightarrow> a + b)"

definition adjustQuantity ::
  "store_answer \<Rightarrow> InventoryItem \<Rightarrow> int \<Rightarrow> InventoryPage \<Rightarrow> InventoryPage" where
  "adjustQuantity answer item delta page =
     (let newQty = max 0 (addNumbers (quantity item) delta) in
      case answer of
        Updated \<Rightarrow>
          page\<lparr>store_rows := setQuantity (item_id item) newQty (store_rows page),
               items := setQuantity (item_id item) newQty (items page),
               updatingQtyId := None\<rparr>
      | Failed message \<Rightarrow>
          page\<lparr>updatingQtyId := None,
               alerts := alerts page
                 @ [if message = [] then ''Error updating quantity'' else message]\<rparr>)"

definition quantitiesNonNegative :: "InventoryItem list \<Rightarrow> bool" where
  "quantitiesNonNegative rows = list_all (\<lambda>i. 0 \<le> quantity i) rows"

text \<open>
  The integers that doubles hold exactly, and the adjustments on which the addition
  \<open>item.quantity + delta\<close> of the program is the addition of integers.
\<close>

definition isExactInteger :: "int \<Rightarrow> bool" where
  "isExactInteger n \<longleftrightarrow> \<bar>n\<bar> \<le> 9007199254740992"

definition exactAdjustment :: "InventoryItem \<Rightarrow> int \<Rightarrow> bool" where
  "exactAdjustment item delta \<longleftrightarrow>
     isExactInteger (quantity item) \<and> isExactInteger delta
     \<and> isExactInteger (quantity item + delta)"

text \<open>The rows after the store or the page has set the quantity of the rows of an id.\<close>

definition withQuantity :: "string \<Rightarrow> int \<Rightarrow> InventoryItem \<Rightarrow> InventoryItem" where
  "withQuantity ident q r = (if item_id r = ident then r\<lparr>quantity := q\<rparr> else r)"

section \<open>Upcoming events on the dashboard\<close>

record Event =
  event_id :: string
  title :: string
  event_date :: string
  event_type :: "string option"
  status :: "string option"
  location :: "string option"

record EventCounts =
  total :: nat
  market :: nat
  popup :: nat
  catering :: nat
  booked :: nat

text \<open>The body of the loop: four independent tests, each adding one to its counter.\<close>

definition countEvent :: "EventCounts \<Rightarrow> Event \<Rightarrow> EventCounts" where
  "countEvent counts e =
     (let c1 = (if event_type e = Some ''market'' then counts\<lparr>market := market counts + 1\<rparr>
                else counts);
          c2 = (if event_type e = Some ''popup'' then c1\<lparr>popup := popup c1 + 1\<rparr> else c1);
          c3 = (if event_type e = Some ''catering'' then c2\<lparr>catering := catering c2 + 1\<rparr>
                else c2);
          c4 = (if status e = Some ''booked'' then c3\<lparr>booked := booked c3 + 1\<rparr> else c3)
      in c4)"

definition eventCounts :: "Event list \<Rightarrow> EventCounts" where
  "eventCounts events =
     foldl countEvent
       \<lparr>total = length events, market = 0, popup = 0, catering = 0, booked = 0\<rparr> events"

text \<open>The number of events of a type, and of a status.\<close>

definition countType :: "string \<Rightarrow> Event list \<Rightarrow> nat" where
  "countType t events = length (filter (\<lambda>e. event_type e = Some t) events)"

definition countStatus :: "string \<Rightarrow> Event list \<Rightarrow> nat" where
  "countStatus s events = length (filter (\<lambda>e. status e = Some s) events)"

section \<open>Goals (the goals page)\<close>

record Goal =
  goal_id :: string
  goal_title :: string
  month :: string
  is_done :: bool
  goal_notes :: "string option"

subsection \<open>A plain object used as a dictionary\<close>

text \<open>
  \<open>groupActiveByMonth\<close> collects its buckets in a plain object, \<open>{}\<close>. The object is
  modelled by the list of its own properties in the order of their creation. Reading
  \<open>map[key]\<close> finds an own property first and otherwise what every plain object inherits
  from \<open>Object.prototype\<close>: under the names below a function or an object, all truthy and
  none with a \<open>push\<close> method; under every other name \<open>undefined\<close>.
\<close>

definition objectPrototypeKeys :: "string list" where
  "objectPrototypeKeys =
     [''constructor'', ''hasOwnProperty'', ''isPrototypeOf'', ''propertyIsEnumerable'',
      ''toLocaleString'', ''toString'', ''valueOf'', ''__proto__'',
      ''__defineGetter__'', ''__defineSetter__'', ''__lookupGetter__'', ''__lookupSetter__'']"

datatype js_error = TypeError

text \<open>\<open>map[key].push(goal)\<close> on an own bucket.\<close>

definition pushTo :: "string \<Rightarrow> Goal \<Rightarrow> (string \<times> Goal list) list \<Rightarrow> (string \<times> Goal list) list" where
  "pushTo key goal m = map (\<lambda>(k, bucket). if k = key then (k, bucket @ [goal]) else (k, bucket)) m"

text \<open>
  The loop over the goals. For a goal that is not done: an own bucket (an array, truthy
  even when empty) is pushed to; an inherited value is truthy, so no bucket is created,
  and calling its missing \<open>push\<close> throws a TypeError; otherwise the bucket is created as a
  new last property and the goal pushed.
\<close>

fun groupInto :: "(string \<times> Goal list) list \<Rightarrow> Goal list \<Rightarrow> js_error + (string \<times> Goal list) list" where
  "groupInto m [] = Inr m"
| "groupInto m (goal # goals) =
     (if \<not> is_done goal then
        (case map_of m (month goal) of
           Some bucket \<Rightarrow> groupInto (pushTo (month goal) goal m) goals
         | None \<Rightarrow>
             if month goal \<in> set objectPrototypeKeys then Inl TypeError
             else groupInto (m @ [(month goal, [goal])]) goals)
      else groupInto m goals)"

text \<open>
  \<open>Object.entries\<close> lists the own properties whose names are array indices (canonical
  decimal numerals below \<open>2^32 - 1\<close>) in ascending numeric order, then the others in the
  order of their creation.
\<close>

definition isArrayIndex :: "string \<Rightarrow> bool" where
  "isArrayIndex k \<longleftrightarrow>
     k \<noteq> [] \<and> list_all (isDigitOf 10) k \<and> digitsValue 10 k < 4294967295
     \<and> toString (nat (digitsValue 10 k)) = k"

definition objectEntries :: "(string \<times> 'v) list \<Rightarrow> (string \<times> 'v) list" where
  "objectEntries m =
     sort_key (\<lambda>(k, v). digitsValue 10 k) (filter (\<lambda>(k, v). isArrayIndex k) m)
     @ filter (\<lambda>(k, v). \<not> isArrayIndex k) m"

text \<open>
  The comparator \<open>([a], [b]) => (a < b ? -1 : 1)\<close>, where \<open><\<close> on strings compares code
  units lexicographically, and \<open>Array.prototype.sort\<close> as an insertion sort that places an
  entry after every entry the comparator orders it after. The entries of an object have
  distinct keys, on which the comparator is a strict total order.
\<close>

definition compareKeys :: "string \<Rightarrow> string \<Rightarrow> int" where
  "compareKeys a b = (if a < b then - 1 else 1)"

fun insertEntry :: "(string \<times> 'v) \<Rightarrow> (string \<times> 'v) list \<Rightarrow> (string \<times> 'v) list" where
  "insertEntry x [] = [x]"
| "insertEntry x (y # ys) =
     (if compareKeys (fst x) (fst y) < 0 then x # y # ys else y # insertEntry x ys)"

definition sortEntries :: "(string \<times> 'v) list \<Rightarrow> (string \<times> 'v) list" where
  "sortEntries es = foldr insertEntry es []"

definition groupActiveByMonth :: "Goal list \<Rightarrow> js_error + (string \<times> Goal list) list" where
  "groupActiveByMonth goals =
     (case groupInto [] goals of
        Inl e \<Rightarrow> Inl e
      | Inr m \<Rightarrow> Inr (sortEntries (objectEntries m)))"

definition completedGoals :: "Goal list \<Rightarrow> Goal list" where
  "completedGoals goals = filter (\<lambda>g. is_done g) goals"

subsection \<open>The grouping as the specification words it\<close>

text \<open>
  The goals that are not done, the bucket of a month (the not-done goals of that month in
  the order of the input), and the months of the buckets in ascending order.
\<close>

definition activeGoals :: "Goal list \<Rightarrow> Goal list" where
  "activeGoals goals = filter (\<lambda>g. \<not> is_done g) goals"

definition bucketOf :: "Goal list \<Rightarrow> string \<Rightarrow> Goal list" where
  "bucketOf goals k = filter (\<lambda>g. month g = k) (activeGoals goals)"

definition activeMonths :: "Goal list \<Rightarrow> string list" where
  "activeMonths goals = sort (remdups (map month (activeGoals goals)))"

definition groupActive_spec :: "Goal list \<Rightarrow> (string \<times> Goal list) list" where
  "groupActive_spec goals = map (\<lambda>k. (k, bucketOf goals k)) (activeMonths goals)"

text \<open>No goal that is not done has a month that names an inherited property.\<close>

definition monthsAreOwnKeys :: "Goal list \<Rightarrow> bool" where
  "monthsAreOwnKeys goals =
     list_all (\<lambda>g. month g \<notin> set objectPrototypeKeys) (activeGoals goals)"

text \<open>A month string of the form \<open>YYYY-MM\<close>: four digits, a hyphen, two digits.\<close>

definition isYearMonth :: "string \<Rightarrow> bool" where
  "isYearMonth s \<longleftrightarrow>
     length s = 7 \<and> list_all (isDigitOf 10) (take 4 s) \<and> s ! 4 = CHR ''-''
     \<and> list_all (isDigitOf 10) (drop 5 s)"

section \<open>The new-event form\<close>

subsection \<open>Dates of the host\<close>

text \<open>
  A \<open>Date\<close> is its time value, the milliseconds since 1970-01-01T00:00:00Z; an invalid
  date has none. The calendar is the proleptic Gregorian one: \<open>daysFromCivil\<close> is the day
  number of a year, month (1 to 12) and day of the month, \<open>civilFromDays\<close> the year, month
  and day of a day number, the day of the month counted from the first of the month as
  \<open>DateFromTime\<close> does. A time value is at most 8.64e15 in magnitude: \<open>TimeClip\<close> makes
  the date beyond it an invalid one. Within that range the doubles of the engine are
  integers and their arithmetic is exact.
\<close>

definition msPerDay :: int where
  "msPerDay = 86400000"

definition daysFromCivil :: "int \<Rightarrow> int \<Rightarrow> int \<Rightarrow> int" where
  "daysFromCivil y m d =
     (let y' = (if m \<le> 2 then y - 1 else y);
          era = y' div 400;
          yoe = y' - era * 400;
          doy = (153 * (if m > 2 then m - 3 else m + 9) + 2) div 5 + d - 1;
          doe = yoe * 365 + yoe div 4 - yoe div 100 + doy
      in era * 146097 + doe - 719468)"

definition yearMonthFromDays :: "int \<Rightarrow> int \<times> int" where
  "yearMonthFromDays z =
     (let z' = z + 719468;
          era = z' div 146097;
          doe = z' - era * 146097;
          yoe = (doe - doe div 1460 + doe div 36524 - doe div 146096) div 365;
          doy = doe - (365 * yoe + yoe div 4 - yoe div 100);
          mp = (5 * doy + 2) div 153;
          m = (if mp < 10 then mp + 3 else mp - 9)
      in (if m \<le> 2 then yoe + era * 400 + 1 else yoe + era * 400, m))"

definition civilFromDays :: "int \<Rightarrow> int \<times> int \<times> int" where
  "civilFromDays z =
     (case yearMonthFromDays z of (y, m) \<Rightarrow> (y, m, z - daysFromCivil y m 1 + 1))"

definition TimeClip :: "int \<Rightarrow> int option" where
  "TimeClip t = (if \<bar>t\<bar> \<le> 8640000000000000 then Some t else None)"

text \<open>
  \<open>MakeDay\<close>: the day number of the day \<open>dt\<close> of a month, where days beyond the month run on
  into the next months and days before the first into the months before.
\<close>

definition MakeDay :: "int \<Rightarrow> int \<Rightarrow> int \<Rightarrow> int" where
  "MakeDay y m dt = daysFromCivil y m 1 + dt - 1"

text \<open>
  \<open>new Date(s)\<close> on the value of a date input, a string \<open>YYYY-MM-DD\<close>: midnight UTC of that
  day. The parser of V8 takes a month from 1 to 12 and a day from 1 to 31, so that a day
  the month does not have runs on into the next month (\<open>2025-02-30\<close> is the second of
  March). The date input of the form produces days of the calendar and the empty string
  only; a string of another form is taken as an invalid date.
\<close>

definition newDate :: "string \<Rightarrow> int option" where
  "newDate s =
     (if length s = 10 \<and> s ! 4 = CHR ''-'' \<and> s ! 7 = CHR ''-'' then
        (case (allDigits 10 (take 4 s), allDigits 10 (take 2 (drop 5 s)),
               allDigits 10 (drop 8 s)) of
           (Some y, Some m, Some d) \<Rightarrow>
             if 1 \<le> m \<and> m \<le> 12 \<and> 1 \<le> d \<and> d \<le> 31
             then TimeClip (MakeDay y m d * msPerDay)
             else None
         | _ \<Rightarrow> None)
      else None)"

text \<open>\<open>Date.prototype.toISOString\<close> of a valid date: the UTC date and time.\<close>

definition pad :: "nat \<Rightarrow> nat \<Rightarrow> string" where
  "pad width n = replicate (width - length (toString n)) (CHR ''0'') @ toString n"

definition toISOString :: "int \<Rightarrow> string" where
  "toISOString t =
     (case civilFromDays (t div msPerDay) of
        (y, m, d) \<Rightarrow>
          let ms = t mod msPerDay;
              year = (if 0 \<le> y \<and> y \<le> 9999 then pad 4 (nat y)
                      else (if y < 0 then ''-'' else ''+'') @ pad 6 (nat \<bar>y\<bar>))
          in year @ ''-'' @ pad 2 (nat m) @ ''-'' @ pad 2 (nat d)
             @ ''T'' @ pad 2 (nat (ms div 3600000)) @ '':'' @ pad 2 (nat (ms div 60000 mod 60))
             @ '':'' @ pad 2 (nat (ms div 1000 mod 60)) @ ''.'' @ pad 3 (nat (ms mod 1000))
             @ ''Z'')"

text \<open>
  The time zone of the host is its offset from UTC in milliseconds, \<open>LocalTZA(t, isUTC)\<close>:
  at the UTC time \<open>t\<close> when \<open>isUTC\<close> holds, at the local time \<open>t\<close> otherwise. \<open>getDate\<close> and
  \<open>setDate\<close> work on the local time: \<open>setDate(dt)\<close> keeps the local year, month and time of
  day, sets the day of the month to \<open>dt\<close> (\<open>MakeDay\<close>), converts the local time back to UTC,
  and leaves an invalid date when the result is beyond the range of the time values.
\<close>

type_synonym TimeZone = "int \<Rightarrow> bool \<Rightarrow> int"

definition LocalTime :: "TimeZone \<Rightarrow> int \<Rightarrow> int" where
  "LocalTime tz t = t + tz t True"

definition UTC :: "TimeZone \<Rightarrow> int \<Rightarrow> int" where
  "UTC tz t = t - tz t False"

definition getDate :: "TimeZone \<Rightarrow> int \<Rightarrow> int" where
  "getDate tz t = (case civilFromDays (LocalTime tz t div msPerDay) of (y, m, d) \<Rightarrow> d)"

definition setDate :: "TimeZone \<Rightarrow> int \<Rightarrow> int \<Rightarrow> int option" where
  "setDate tz t dt =
     (let lt = LocalTime tz t in
      case civilFromDays (lt div msPerDay) of
        (y, m, d) \<Rightarrow> TimeClip (UTC tz (MakeDay y m dt * msPerDay + lt mod msPerDay)))"

text \<open>Three hosts: UTC, a fixed offset, and Pacific time with the daylight saving time of 2025
  (UTC-8, and UTC-7 from 2025-03-09T10:00Z to 2025-11-02T09:00Z).\<close>

definition utcZone :: TimeZone where
  "utcZone t isUTC = 0"

definition fixedZone :: "int \<Rightarrow> TimeZone" where
  "fixedZone offset t isUTC = offset"

definition losAngeles2025 :: TimeZone where
  "losAngeles2025 t isUTC =
     (if isUTC then (if 1741514400000 \<le> t \<and> t < 1762074000000 then - 25200000 else - 28800000)
      else (if 1741489200000 \<le> t \<and> t < 1762048800000 then - 25200000 else - 28800000))"

subsection \<open>The helpers and the submission of the form\<close>

text \<open>
  \<open>addDays\<close> on a valid date: the copy of the date with its day of the month moved, an
  invalid date (\<open>None\<close>) when beyond the range. \<open>formatDateForDB\<close> on a valid date; on an
  invalid one \<open>toISOString\<close> throws a RangeError, which the loop below has as its error.
\<close>

definition addDays :: "TimeZone \<Rightarrow> int \<Rightarrow> int \<Rightarrow> int option" where
  "addDays tz date days = setDate tz date (getDate tz date + days)"

definition formatDateForDB :: "int \<Rightarrow> string" where
  "formatDateForDB date = take 10 (toISOString date)"

definition EVENT_TYPES :: "(string \<times> string) list" where
  "EVENT_TYPES =
     [(''market'', ''Farmers Market''), (''wedding'', ''Wedding''),
      (''corporate'', ''Corporate''), (''private'', ''Private Event''),
      (''popup'', ''Pop-up''), (''other'', ''Other'')]"

record NewEventForm =
  form_title :: string
  form_date :: string
  form_location :: string
  eventType :: string
  clientName :: string
  clientEmail :: string
  clientPhone :: string
  form_status :: string
  form_notes :: string
  isRecurring :: bool
  weeks :: jsnum

record NewEventRow =
  row_title :: string
  row_date :: string
  row_location :: string
  row_type :: string
  client_name :: "string option"
  client_email :: "string option"
  client_phone :: "string option"
  row_status :: string
  row_notes :: "string option"

text \<open>\<open>s.trim() || null\<close>.\<close>

definition cleaned :: "string \<Rightarrow> string option" where
  "cleaned s = (if trimString s = [] then None else Some (trimString s))"

text \<open>The row pushed for a date: every field but the date comes from the form.\<close>

definition rowFor :: "NewEventForm \<Rightarrow> string \<Rightarrow> NewEventRow" where
  "rowFor form d =
     \<lparr>row_title = form_title form,
      row_date = d,
      row_location = form_location form,
      row_type = eventType form,
      client_name = cleaned (clientName form),
      client_email = cleaned (clientEmail form),
      client_phone = cleaned (clientPhone form),
      row_status = form_status form,
      row_notes = cleaned (form_notes form)\<rparr>"

text \<open>
  \<open>Math.max(1, weeks || 1)\<close>, and the number of rounds that the condition of \<open>for (let i =
  0; i < totalWeeks; i++)\<close> allows: the least natural number that is not below
  \<open>totalWeeks\<close>, and no bound when \<open>totalWeeks\<close> is infinite.
\<close>

definition js_max :: "jsnum \<Rightarrow> jsnum \<Rightarrow> jsnum" where
  "js_max a b =
     (if isNaN a \<or> isNaN b then NaN
      else if js_ge a b then (if js_ge b a \<and> a = NegZero then b else a) else b)"

definition totalWeeks :: "jsnum \<Rightarrow> jsnum" where
  "totalWeeks w = js_max (Fin 1) (if isNaN w \<or> isZero w then Fin 1 else w)"

definition rounds :: "jsnum \<Rightarrow> nat option" where
  "rounds n = (case n of Fin r \<Rightarrow> Some (nat \<lceil>r\<rceil>) | PInf \<Rightarrow> None | _ \<Rightarrow> Some 0)"

datatype submit_error = PickDate | RangeError

text \<open>
  The rounds of the loop, one for each \<open>i\<close> of the list: the date of the round is
  \<open>addDays(baseDate, i * 7)\<close>, and formatting it throws a RangeError, which ends the
  submission, when it is invalid; otherwise the form's row for the date is pushed.
\<close>

fun insertRows ::
  "TimeZone \<Rightarrow> NewEventForm \<Rightarrow> int \<Rightarrow> nat list \<Rightarrow> submit_error + NewEventRow list" where
  "insertRows tz form baseDate [] = Inr []"
| "insertRows tz form baseDate (i # rest) =
     (case addDays tz baseDate (int i * 7) of
        None \<Rightarrow> Inl RangeError
      | Some nextDate \<Rightarrow>
          (case insertRows tz form baseDate rest of
             Inl e \<Rightarrow> Inl e
           | Inr rows \<Rightarrow> Inr (rowFor form (formatDateForDB nextDate) # rows)))"

text \<open>
  The array \<open>eventsToInsert\<close> that \<open>handleSubmit\<close> hands to the store in one insert.
  An empty date throws "Please pick a date."; formatting an invalid date throws a
  RangeError. With an infinite \<open>totalWeeks\<close> the loop goes on until the date of a round is
  beyond the range of the time values, and ends there with the RangeError: on a host
  with a bounded offset from UTC that round comes (\<open>insertRows_beyond_range\<close> below).
\<close>

definition eventsToInsert :: "TimeZone \<Rightarrow> NewEventForm \<Rightarrow> submit_error + NewEventRow list" where
  "eventsToInsert tz form =
     (if form_date form = [] then Inl PickDate
      else
        (case newDate (form_date form) of
           None \<Rightarrow> Inl RangeError
         | Some baseDate \<Rightarrow>
             if isRecurring form then
               (case rounds (totalWeeks (weeks form)) of
                  None \<Rightarrow> Inl RangeError
                | Some n \<Rightarrow> insertRows tz form baseDate [0..<n])
             else Inr [rowFor form (formatDateForDB baseDate)]))"

text \<open>The dates of the rows of a submission.\<close>

definition insertedDates :: "TimeZone \<Rightarrow> NewEventForm \<Rightarrow> submit_error + string list" where
  "insertedDates tz form =
     (case eventsToInsert tz form of Inl e \<Rightarrow> Inl e | Inr rows \<Rightarrow> Inr (map row_date rows))"

section \<open>Example data\<close>

text \<open>An inventory item of the specification's third example, and a page with two items.\<close>

definition oatMilk :: InventoryItem where
  "oatMilk =
     \<lparr>item_id = ''i1'', name = ''Oat milk'', category = ''milk'', unit_label = ''carton'',
      quantity = 2, reorder_threshold = 5, item_notes = None\<rparr>"

definition lids :: InventoryItem where
  "lids =
     \<lparr>item_id = ''i7'', name = ''Lids'', category = ''cups'', unit_label = ''sleeve'',
      quantity = 1, reorder_threshold = 2, item_notes = None\<rparr>"

definition lidsPage :: InventoryPage where
  "lidsPage =
     \<lparr>items = [oatMilk, lids], store_rows = [oatMilk, lids], updatingQtyId = None,
      alerts = []\<rparr>"

text \<open>The three goals of the specification's fourth example, and some more.\<close>

definition goal_menu :: Goal where
  "goal_menu =
     \<lparr>goal_id = ''g1'', goal_title = ''New menu board'',
      month = ''2025-03'', is_done = False, goal_notes = None\<rparr>"

definition goal_cups :: Goal where
  "goal_cups =
     \<lparr>goal_id = ''g2'', goal_title = ''Order winter cups'',
      month = ''2025-01'', is_done = False, goal_notes = None\<rparr>"

definition goal_permit :: Goal where
  "goal_permit =
     \<lparr>goal_id = ''g3'', goal_title = ''Renew market permit'',
      month = ''2025-01'', is_done = True, goal_notes = None\<rparr>"

definition goal_barista :: Goal where
  "goal_barista =
     \<lparr>goal_id = ''g4'', goal_title = ''Hire a barista'',
      month = ''constructor'', is_done = False, goal_notes = None\<rparr>"

definition goal_grinder :: Goal where
  "goal_grinder =
     \<lparr>goal_id = ''g5'', goal_title = ''Service the grinder'',
      month = ''2025-02'', is_done = False, goal_notes = None\<rparr>"

definition goal_tax :: Goal where
  "goal_tax =
     \<lparr>goal_id = ''g6'', goal_title = ''File sales tax'',
      month = ''2024-12'', is_done = True, goal_notes = None\<rparr>"

definition goal_markets :: Goal where
  "goal_markets =
     \<lparr>goal_id = ''g7'', goal_title = ''Book spring markets'',
      month = ''2025-02'', is_done = False, goal_notes = None\<rparr>"

definition goal_syrup :: Goal where
  "goal_syrup =
     \<lparr>goal_id = ''g8'', goal_title = ''Try oat syrup'',
      month = ''2024-12'', is_done = False, goal_notes = None\<rparr>"

definition goal_cart :: Goal where
  "goal_cart =
     \<lparr>goal_id = ''g9'', goal_title = ''Clean the cart'',
      month = ''__proto__'', is_done = False, goal_notes = None\<rparr>"

text \<open>A weekly market from 2025-03-03 for two weeks.\<close>

definition westsideMarket :: NewEventForm where
  "westsideMarket =
     \<lparr>form_title = ''Westside Farmers Market'', form_date = ''2025-03-03'',
      form_location = ''Lot B'', eventType = ''market'', clientName = '''', clientEmail = '''',
      clientPhone = '''', form_status = ''booked'', form_notes = '''', isRecurring = True,
      weeks = Fin 2\<rparr>"

section \<open>Properties of the numbers\<close>

lemma bitLength_nonnegative: "0 \<le> bitLength n"
  by (induction n rule: bitLength.induct) (subst bitLength.simps, simp)

lemma bitLength_bounds:
  "0 < n \<Longrightarrow> 2 ^ nat (bitLength n - 1) \<le> n \<and> n < 2 ^ nat (bitLength n)"
proof (induction n rule: bitLength.induct)
  case (1 n)
  show ?case
  proof (cases "n = 1")
    case True
    have "bitLength 1 = 1"
      by (subst bitLength.simps, subst bitLength.simps) simp
    with True show ?thesis by simp
  next
    case False
    with "1.prems" have half: "0 < n div 2" by simp
    define b where "b = bitLength (n div 2)"
    from "1.IH" "1.prems" half
    have ih: "2 ^ nat (b - 1) \<le> n div 2" "n div 2 < 2 ^ nat b"
      by (simp_all add: b_def)
    have bpos: "1 \<le> b"
    proof (rule ccontr)
      assume "\<not> 1 \<le> b"
      with bitLength_nonnegative [of "n div 2"] have "b = 0" by (simp add: b_def)
      with ih(2) half show False by simp
    qed
    have bl: "bitLength n = 1 + b"
      using "1.prems" by (subst bitLength.simps) (simp add: b_def)
    have p1: "(2::int) ^ nat b = 2 * 2 ^ nat (b - 1)"
      using bpos by (metis Suc_nat_eq_nat_zadd1 add.commute diff_add_cancel diff_ge_0_iff_ge power_Suc)
    have p2: "(2::int) ^ nat (1 + b) = 2 * 2 ^ nat b"
      using bpos by (simp add: nat_add_distrib)
    have "2 ^ nat b \<le> n"
      using ih(1) p1 by linarith
    moreover have "n < 2 ^ nat (1 + b)"
      using ih(2) p2 by linarith
    ultimately show ?thesis
      by (simp add: bl)
  qed
qed

lemma exponentOf_of_int:
  assumes "0 < n"
  shows "exponentOf (of_int n) = bitLength n - 1"
proof -
  have one: "bitLength 1 = 1"
    by (subst bitLength.simps, subst bitLength.simps) simp
  from bitLength_bounds [OF assms] have low: "2 ^ nat (bitLength n - 1) \<le> n"
    by simp
  have pos: "0 \<le> bitLength n - 1"
  proof (rule ccontr)
    assume "\<not> 0 \<le> bitLength n - 1"
    with bitLength_nonnegative [of n] have "bitLength n = 0" by simp
    with bitLength_bounds [OF assms] assms show False by simp
  qed
  have "rat_of_int (2 ^ nat (bitLength n - 1)) \<le> rat_of_int n"
    using low by (simp only: of_int_le_iff)
  then have "\<not> rat_of_int n < pow2 (bitLength n - 1)"
    using pos by (simp add: pow2_def)
  then show ?thesis
    by (simp add: exponentOf_def quotient_of_int one Let_def)
qed

lemma roundHalfEven_of_int: "roundHalfEven (of_int k) = k"
  by (simp add: roundHalfEven_def)

lemma nearestDouble_magnitude:
  assumes "0 < a" and "a \<le> 9007199254740992"
  shows "exponentOf (rat_of_int a) \<le> 1023
    \<and> \<not> (exponentOf (rat_of_int a) = 1023)
    \<and> rat_of_int (roundHalfEven (rat_of_int a / pow2 (max (exponentOf (rat_of_int a)) (- 1022) - 52)))
        * pow2 (max (exponentOf (rat_of_int a)) (- 1022) - 52) = rat_of_int a"
proof -
  define e where "e = bitLength a - 1"
  have ex: "exponentOf (rat_of_int a) = e"
    using assms(1) by (simp add: e_def exponentOf_of_int)
  from bitLength_bounds [OF assms(1)] have low: "2 ^ nat e \<le> a"
    by (simp add: e_def)
  have pos: "0 \<le> e"
  proof (rule ccontr)
    assume "\<not> 0 \<le> e"
    with bitLength_nonnegative [of a] have "bitLength a = 0" by (simp add: e_def)
    with bitLength_bounds [OF assms(1)] assms(1) show False by simp
  qed
  have num: "(9007199254740992::int) = 2 ^ 53"
    by simp
  have "(2::int) ^ nat e \<le> 2 ^ 53"
    using low assms(2) unfolding num by (rule order_trans)
  then have "nat e \<le> 53"
    by (rule power_le_imp_le_exp [rotated]) simp
  with pos have up: "e \<le> 53" by simp
  have q: "max e (- 1022) - 52 = e - 52"
    using pos by simp
  have round: "rat_of_int (roundHalfEven (rat_of_int a / pow2 (e - 52))) * pow2 (e - 52)
                 = rat_of_int a"
  proof (cases "e \<le> 52")
    case True
    define k where "k = nat (52 - e)"
    have p: "pow2 (e - 52) = 1 / 2 ^ k"
    proof (cases "e = 52")
      case True
      then show ?thesis by (simp add: pow2_def k_def)
    next
      case False
      with \<open>e \<le> 52\<close> have "e - 52 < 0" by simp
      then show ?thesis by (simp add: pow2_def k_def)
    qed
    have "rat_of_int a / pow2 (e - 52) = rat_of_int (a * 2 ^ k)"
      by (simp add: p)
    then have "roundHalfEven (rat_of_int a / pow2 (e - 52)) = a * 2 ^ k"
      by (simp only: roundHalfEven_of_int)
    then show ?thesis
      by (simp add: p)
  next
    case False
    with up have e53: "e = 53" by simp
    with low assms(2) have a: "a = 9007199254740992" by simp
    have "rat_of_int a / pow2 (e - 52) = rat_of_int 4503599627370496"
      by (simp add: e53 a pow2_def)
    then have "roundHalfEven (rat_of_int a / pow2 (e - 52)) = 4503599627370496"
      by (simp only: roundHalfEven_of_int)
    then show ?thesis
      by (simp add: e53 a pow2_def)
  qed
  from up round show ?thesis
    by (simp add: ex q)
qed

text \<open>The integers of magnitude up to \<open>2^53\<close> are doubles: rounding leaves them as they are.\<close>

lemma nearestDouble_of_int:
  assumes "isExactInteger n"
  shows "nearestDouble (of_int n) = Fin (of_int n)"
proof (cases "n = 0")
  case True
  then show ?thesis by (simp add: nearestDouble_def)
next
  case False
  define a where "a = \<bar>n\<bar>"
  have a: "0 < a" "a \<le> 9007199254740992"
    using False assms by (simp_all add: a_def isExactInteger_def)
  have abs_a: "\<bar>rat_of_int a\<bar> = rat_of_int a"
    using a(1) by simp
  have pos: "nearestDouble (rat_of_int a) = Fin (rat_of_int a)"
    using nearestDouble_magnitude [OF a] a(1)
    by (simp add: nearestDouble_def Let_def abs_a)
  have neg: "nearestDouble (- rat_of_int a) = Fin (- rat_of_int a)"
    using nearestDouble_magnitude [OF a] a(1)
    by (simp add: nearestDouble_def Let_def abs_a)
  show ?thesis
  proof (cases "n < 0")
    case True
    then have "rat_of_int n = - rat_of_int a"
      by (simp add: a_def)
    with neg show ?thesis by simp
  next
    case False
    then have "rat_of_int n = rat_of_int a"
      by (simp add: a_def)
    with pos show ?thesis by simp
  qed
qed

text \<open>On the integers that doubles hold exactly, the program adds as the integers do.\<close>

lemma plus_exact_integers:
  assumes "isExactInteger a" and "isExactInteger b" and "isExactInteger (a + b)"
  shows "Fin (of_int a) + Fin (of_int b) = Fin (of_int (a + b))"
proof -
  have "nearestDouble (rat_of_int a + rat_of_int b) = Fin (rat_of_int a + rat_of_int b)"
    using nearestDouble_of_int [OF assms(3)] by simp
  then show ?thesis
    by simp
qed

lemma minus_exact_integers:
  assumes "isExactInteger a" and "isExactInteger b" and "isExactInteger (a - b)"
  shows "Fin (of_int a) - Fin (of_int b) = Fin (of_int (a - b))"
proof (cases "b = 0")
  case True
  then show ?thesis by (simp add: minus_jsnum_def)
next
  case False
  have nb: "isExactInteger (- b)"
    using assms(2) by (simp add: isExactInteger_def)
  have "Fin (of_int a) + Fin (of_int (- b)) = Fin (of_int (a + (- b)))"
    using assms(1) nb assms(3) by (intro plus_exact_integers) simp_all
  with False show ?thesis
    by (simp add: minus_jsnum_def)
qed

section \<open>Properties of the cash drawer\<close>

lemma Number_zero_literal: "Number ''0'' = Fin 0"
  by code_simp

lemma toString_denoms:
  "toString 100 = ''100''" "toString 50 = ''50''" "toString 20 = ''20''"
  "toString 10 = ''10''" "toString 5 = ''5''" "toString 1 = ''1''"
  "toString (Suc 0) = ''1''"
  by (simp_all add: toString.simps)

lemma pow2_positive: "0 < pow2 e"
  by (simp add: pow2_def)

lemma roundHalfEven_nonnegative: "0 \<le> m \<Longrightarrow> 0 \<le> roundHalfEven m"
  by (simp add: roundHalfEven_def Let_def)

lemma nearestDouble_cases:
  "nearestDouble r = PInf \<or> nearestDouble r = NInf \<or> (\<exists>s. nearestDouble r = Fin s)"
  by (simp add: nearestDouble_def Let_def)

lemma nearestDouble_not_NegZero: "nearestDouble r \<noteq> NegZero"
  using nearestDouble_cases [of r] by auto

lemma nearestDouble_nonnegative: "0 \<le> r \<Longrightarrow> js_ge (nearestDouble r) (Fin 0)"
proof -
  assume r: "0 \<le> r"
  have "0 \<le> rat_of_int (roundHalfEven (\<bar>r\<bar> / pow2 q)) * pow2 q" for q
  proof -
    have "0 \<le> \<bar>r\<bar> / pow2 q"
      using pow2_positive [of q] by simp
    then have "0 \<le> roundHalfEven (\<bar>r\<bar> / pow2 q)"
      by (rule roundHalfEven_nonnegative)
    with pow2_positive [of q] show ?thesis
      by simp
  qed
  with r show ?thesis
    by (simp add: nearestDouble_def Let_def)
qed

lemma roundSigned_nonnegative: "0 \<le> r \<Longrightarrow> js_ge (roundSigned r) (Fin 0)"
  using nearestDouble_nonnegative [of r] nearestDouble_cases [of r]
  by (auto simp: roundSigned_def)

text \<open>A sum is the negative zero only when both summands are.\<close>

lemma plus_not_NegZero: "x \<noteq> NegZero \<Longrightarrow> x + y \<noteq> (NegZero :: jsnum)"
  by (cases x; cases y) (simp_all add: nearestDouble_not_NegZero)

lemma plus_zero_right: "x \<noteq> NegZero \<Longrightarrow> x + Fin 0 = (x :: jsnum)"
  by (cases x) simp_all

lemma zero_times_face: "0 < v \<Longrightarrow> Fin 0 * Fin v = Fin 0"
  by (simp add: times_jsnum_def)

lemma totalStep_countOf:
  assumes "acc \<noteq> NegZero" and "0 < dvalue d"
  shows "totalStep counts acc d
           = acc + countOf counts (toString (dvalue d)) * Fin (of_nat (dvalue d))"
  using assms
  by (simp add: totalStep_def rawCount_def countOf_def Let_def Number_zero_literal
      plus_zero_right zero_times_face split: option.split)

lemma foldl_totalStep:
  assumes "acc \<noteq> NegZero" and "list_all (\<lambda>d. 0 < dvalue d) ds"
  shows "foldl (totalStep counts) acc ds
           = foldl (\<lambda>a d. a + countOf counts (toString (dvalue d)) * Fin (of_nat (dvalue d)))
               acc ds"
  using assms
proof (induction ds arbitrary: acc)
  case Nil
  show ?case by simp
next
  case (Cons d ds)
  then have step: "totalStep counts acc d
      = acc + countOf counts (toString (dvalue d)) * Fin (of_nat (dvalue d))"
    by (simp add: totalStep_countOf)
  have "acc + countOf counts (toString (dvalue d)) * Fin (of_nat (dvalue d)) \<noteq> NegZero"
    using Cons.prems(1) by (rule plus_not_NegZero)
  with Cons step show ?case
    by simp
qed

lemma computeTotal_total_spec: "computeTotal counts = total_spec counts"
proof -
  have "list_all (\<lambda>d. 0 < dvalue d) DENOMS"
    by (simp add: DENOMS_def)
  then have "computeTotal counts
      = foldl (\<lambda>a d. a + countOf counts (toString (dvalue d)) * Fin (of_nat (dvalue d)))
          (Fin 0) DENOMS"
    unfolding computeTotal_def by (intro foldl_totalStep) simp_all
  also have "\<dots> = total_spec counts"
    by (simp add: DENOMS_def total_spec_def toString_denoms)
  finally show ?thesis .
qed

lemma js_ge_zero_add:
  "js_ge a (Fin 0) \<Longrightarrow> js_ge b (Fin 0) \<Longrightarrow> js_ge (a + b) (Fin 0)"
  by (cases a; cases b) (simp_all add: nearestDouble_nonnegative)

lemma js_ge_zero_times_face:
  "js_ge a (Fin 0) \<Longrightarrow> 0 < v \<Longrightarrow> js_ge (a * Fin v) (Fin 0)"
  by (cases a) (simp_all add: times_jsnum_def roundSigned_nonnegative)

lemma countOf_nonnegative:
  "entryNonNegative counts key \<Longrightarrow> js_ge (countOf counts key) (Fin 0)"
  by (auto simp: entryNonNegative_def countOf_def rawCount_def Number_zero_literal
      split: option.splits if_splits)

lemma orZero_number: "\<not> isNaN x \<Longrightarrow> x \<noteq> NegZero \<Longrightarrow> orZero x = x"
  by (cases x) (simp_all add: orZero_def)

text \<open>
  A saved session shows the net cash the form showed when it was saved, as long as the
  fee and the payouts were numbers other than the negative zero and the store returns
  the inserted amounts unchanged.
\<close>

lemma net_savedSession:
  assumes "\<not> isNaN (amountNum stallFee)" and "amountNum stallFee \<noteq> NegZero"
    and "\<not> isNaN (amountNum payouts)" and "amountNum payouts \<noteq> NegZero"
  shows "net (savedSession new_id date openingCounts closingCounts stallFee payouts notes)
           = netCash openingCounts closingCounts stallFee payouts"
  using assms by (simp add: net_def savedSession_def netCash_def netCashOf_def orZero_number)

text \<open>
  The arithmetic is that of doubles: a closing count of one bill of 1, a fee of 0.9 and
  payouts of 0.1 leave a net cash of \<open>-2^-55\<close>, not 0, and counts of 0.1 and 0.04 total
  0.30000000000000004.
\<close>

lemma netCash_rounds:
  "netCash Map.empty [''1'' \<mapsto> ''1''] ''0.9'' ''0.1'' = Fin (- (1 / 36028797018963968))"
  by code_simp

lemma computeTotal_rounds:
  "computeTotal [''1'' \<mapsto> ''0.1'', ''5'' \<mapsto> ''0.04'']
     = Fin (1351079888211149 / 4503599627370496)"
  by code_simp

text \<open>
  On amounts that are integers, with all differences within the integers that doubles
  hold exactly, the net cash is the difference of the integers.
\<close>

lemma netCashOf_exact_integers:
  assumes "isExactInteger c" and "isExactInteger p" and "isExactInteger f"
    and "isExactInteger q" and "isExactInteger (c - p)" and "isExactInteger (c - p - f)"
    and "isExactInteger (c - p - f - q)"
  shows "netCashOf (Fin (of_int c)) (Fin (of_int p)) (Fin (of_int f)) (Fin (of_int q))
           = Fin (of_int (c - p - f - q))"
  using assms by (simp only: netCashOf_def minus_exact_integers)

text \<open>
  C1. Net cash is the closing total minus the opening total minus the fee minus the
  payouts, in the arithmetic of the program's numbers, for all opening and closing counts
  and all fee and payout entries. The Net column of a stored session is computed by the
  same formula from the session's four stored components. Opening counts \<open>{5: 2}\<close>
  total 10, closing counts \<open>{10: 3}\<close> total 30, and with fee 2 and payouts 3 the net cash
  is 15.
\<close>

theorem netCash_formula:
  "netCash openingCounts closingCounts stallFee payouts
     = computeTotal closingCounts - computeTotal openingCounts
       - amountNum stallFee - amountNum payouts
   \<and> net s = closing_total s - opening_total s - stall_fee s - payouts_total s
   \<and> computeTotal [''5'' \<mapsto> ''2''] = Fin 10
   \<and> computeTotal [''10'' \<mapsto> ''3''] = Fin 30
   \<and> amountNum ''2'' = Fin 2
   \<and> amountNum ''3'' = Fin 3
   \<and> netCash [''5'' \<mapsto> ''2''] [''10'' \<mapsto> ''3''] ''2'' ''3'' = Fin 15"
proof (intro conjI)
  show "netCash openingCounts closingCounts stallFee payouts
          = computeTotal closingCounts - computeTotal openingCounts
            - amountNum stallFee - amountNum payouts"
    by (simp add: netCash_def netCashOf_def)
  show "net s = closing_total s - opening_total s - stall_fee s - payouts_total s"
    by (simp add: net_def)
  show "computeTotal [''5'' \<mapsto> ''2''] = Fin 10"
    by code_simp
  show "computeTotal [''10'' \<mapsto> ''3''] = Fin 30"
    by code_simp
  show "amountNum ''2'' = Fin 2"
    by code_simp
  show "amountNum ''3'' = Fin 3"
    by code_simp
  show "netCash [''5'' \<mapsto> ''2''] [''10'' \<mapsto> ''3''] ''2'' ''3'' = Fin 15"
    by code_simp
qed

text \<open>
  C2. For every mapping of counts, the total is the sum over the six denominations
  100, 50, 20, 10, 5 and 1 of count times face value, where a missing, an empty and a
  non-numeric entry count as 0; sum and products are those of the program's numbers,
  added from 0 in the order of the denominations. The counts \<open>{100: 1, 20: 2, 1: 5}\<close>
  total 145.
\<close>

theorem computeTotal_denomination_sum:
  "computeTotal counts = total_spec counts
   \<and> computeTotal [''100'' \<mapsto> ''1'', ''20'' \<mapsto> ''2'', ''1'' \<mapsto> ''5''] = Fin 145"
proof
  show "computeTotal counts = total_spec counts"
    by (rule computeTotal_total_spec)
  show "computeTotal [''100'' \<mapsto> ''1'', ''20'' \<mapsto> ''2'', ''1'' \<mapsto> ''5''] = Fin 145"
    by code_simp
qed

text \<open>
  C3, as stated: the total of every mapping is \<open>\<ge> 0\<close>, also when an entry is a negative
  number. It fails: one bill of 1 counted \<open>-1\<close> times totals \<open>-1\<close>.
\<close>

theorem computeTotal_negative_entry:
  "\<not> js_ge (computeTotal [''1'' \<mapsto> ''-1'']) (Fin 0)"
  by code_simp

text \<open>
  C3, amended: when each of the six denomination entries is missing, empty, not numeric
  or a number \<open>\<ge> 0\<close>, the total is \<open>\<ge> 0\<close>.
\<close>

theorem computeTotal_nonnegative:
  assumes "\<forall>key \<in> set denomKeys. entryNonNegative counts key"
  shows "js_ge (computeTotal counts) (Fin 0)"
proof -
  have c: "js_ge (countOf counts key * Fin v) (Fin 0)"
    if "key \<in> set denomKeys" and "0 < v" for key v
    using that assms by (simp add: countOf_nonnegative js_ge_zero_times_face)
  show ?thesis
    unfolding computeTotal_total_spec total_spec_def
    by (intro js_ge_zero_add c) (simp_all add: denomKeys_def)
qed

theorem computeTotal_nonnegative_witness:
  "list_all (entryNonNegative [''20'' \<mapsto> ''3'', ''5'' \<mapsto> ''x'']) denomKeys
   \<and> js_ge (computeTotal [''20'' \<mapsto> ''3'', ''5'' \<mapsto> ''x'']) (Fin 0)"
proof -
  have h: "list_all (entryNonNegative [''20'' \<mapsto> ''3'', ''5'' \<mapsto> ''x'']) denomKeys"
    by code_simp
  then have "\<forall>key \<in> set denomKeys.
               entryNonNegative [''20'' \<mapsto> ''3'', ''5'' \<mapsto> ''x''] key"
    by (simp add: list_all_iff)
  from h computeTotal_nonnegative [OF this] show ?thesis by blast
qed

text \<open>
  C9. The total reads the entries under the keys \<open>"100"\<close>, \<open>"50"\<close>, \<open>"20"\<close>,
  \<open>"10"\<close>, \<open>"5"\<close> and \<open>"1"\<close> only: two mappings that agree on these six keys
  have the same total, whatever they hold under other keys.
\<close>

theorem computeTotal_depends_on_denomKeys:
  assumes "\<forall>key \<in> set denomKeys. counts1 key = counts2 key"
  shows "computeTotal counts1 = computeTotal counts2"
  using assms by (simp add: computeTotal_total_spec total_spec_def countOf_def denomKeys_def)

theorem computeTotal_depends_on_denomKeys_witness:
  "list_all (\<lambda>key. [''100'' \<mapsto> ''2'', ''tips'' \<mapsto> ''40''] key = [''100'' \<mapsto> ''2''] key)
     denomKeys
   \<and> computeTotal [''100'' \<mapsto> ''2'', ''tips'' \<mapsto> ''40'']
       = computeTotal [''100'' \<mapsto> ''2'']
   \<and> [''100'' \<mapsto> ''2'', ''tips'' \<mapsto> ''40''] ''tips''
       \<noteq> [''100'' \<mapsto> ''2''] ''tips''"
proof -
  have h: "\<forall>key \<in> set denomKeys.
             [''100'' \<mapsto> ''2'', ''tips'' \<mapsto> ''40''] key = [''100'' \<mapsto> ''2''] key"
    by (simp add: denomKeys_def)
  have d: "[''100'' \<mapsto> ''2'', ''tips'' \<mapsto> ''40''] ''tips''
             \<noteq> [''100'' \<mapsto> ''2''] ''tips''"
    by simp
  from h have l: "list_all (\<lambda>key. [''100'' \<mapsto> ''2'', ''tips'' \<mapsto> ''40''] key
                                   = [''100'' \<mapsto> ''2''] key) denomKeys"
    unfolding list_all_iff .
  from l d computeTotal_depends_on_denomKeys [OF h] show ?thesis by blast
qed

section \<open>Properties of the inventory\<close>

text \<open>
  C4. An item is low exactly when its reorder threshold is positive and its quantity is
  at most the threshold, on the dashboard and on the inventory page alike; an item whose
  threshold is 0 is never low, whatever its quantity.
\<close>

theorem isLow_iff:
  "(isLow item \<longleftrightarrow>
      reorder_threshold item > 0 \<and> quantity item \<le> reorder_threshold item)
   \<and> (isLow_Inventory item \<longleftrightarrow> isLow item)
   \<and> (reorder_threshold item = 0 \<longrightarrow> \<not> isLow item \<and> \<not> isLow_Inventory item)"
  by (simp add: isLow_def isLow_Inventory_def)

theorem isLow_iff_witness:
  "reorder_threshold (oatMilk\<lparr>reorder_threshold := 0\<rparr>) = 0
   \<and> \<not> isLow (oatMilk\<lparr>reorder_threshold := 0\<rparr>)
   \<and> \<not> isLow_Inventory (oatMilk\<lparr>reorder_threshold := 0\<rparr>)
   \<and> isLow oatMilk"
  using isLow_iff [of "oatMilk\<lparr>reorder_threshold := 0\<rparr>"] isLow_iff [of oatMilk]
  by (simp add: oatMilk_def)

lemma lowCount_lowItems: "lowCount inventory = length (lowItems inventory)"
  by (simp add: lowCount_def lowItems_def isLow_def)

lemma setQuantity_written:
  "i \<in> set (setQuantity ident q rows) \<Longrightarrow> item_id i = ident \<Longrightarrow> quantity i = q"
proof (induction rows)
  case Nil
  then show ?case by (simp add: setQuantity_def)
next
  case (Cons r rows)
  have step: "setQuantity ident q (r # rows)
                = (if item_id r = ident then r\<lparr>quantity := q\<rparr> else r) # setQuantity ident q rows"
    by (simp add: setQuantity_def)
  from Cons.prems(1) consider
      "i = (if item_id r = ident then r\<lparr>quantity := q\<rparr> else r)"
    | "i \<in> set (setQuantity ident q rows)"
    unfolding step by auto
  then show ?case
  proof cases
    case 1
    show ?thesis
    proof (cases "item_id r = ident")
      case True
      with 1 show ?thesis by simp
    next
      case False
      with 1 Cons.prems(2) show ?thesis by simp
    qed
  next
    case 2
    with Cons show ?thesis by blast
  qed
qed

lemma setQuantity_ids: "map item_id (setQuantity ident q rows) = map item_id rows"
  by (simp add: setQuantity_def)

lemma setQuantity_nonnegative:
  "0 \<le> q \<Longrightarrow> quantitiesNonNegative rows \<Longrightarrow>
     quantitiesNonNegative (setQuantity ident q rows)"
  by (induction rows) (simp_all add: quantitiesNonNegative_def setQuantity_def)

lemma setQuantity_hit:
  "i \<in> set rows \<Longrightarrow> item_id i = ident \<Longrightarrow>
     i\<lparr>quantity := q\<rparr> \<in> set (setQuantity ident q rows)"
  by (induction rows) (auto simp: setQuantity_def)

lemma addNumbers_exact:
  "isExactInteger a \<Longrightarrow> isExactInteger b \<Longrightarrow> isExactInteger (a + b) \<Longrightarrow>
     addNumbers a b = a + b"
  by (simp only: addNumbers_def plus_exact_integers jsnum.case floor_of_int)

text \<open>Beyond \<open>2^53\<close> the sum is rounded: \<open>2^53 + 1\<close> is \<open>2^53\<close>.\<close>

lemma addNumbers_rounds: "addNumbers 9007199254740992 1 = 9007199254740992"
  by code_simp

text \<open>
  C10. The quick adjustment clamps at zero. For an item and a delta whose sum the
  program's numbers hold exactly, a successful adjustment sets the quantity of every
  store row and every local row of the item's id to \<open>max 0 (quantity + delta)\<close> and
  leaves the other rows as they are, and that value is never negative (at quantity 0
  and delta -1 it is 0); a failed one changes no row. So rows whose quantities were all
  non-negative stay so.
\<close>

theorem adjustQuantity_clamps:
  assumes "exactAdjustment item delta"
  shows "store_rows (adjustQuantity Updated item delta page)
           = map (withQuantity (item_id item) (max 0 (quantity item + delta))) (store_rows page)
    \<and> items (adjustQuantity Updated item delta page)
           = map (withQuantity (item_id item) (max 0 (quantity item + delta))) (items page)
    \<and> 0 \<le> max 0 (quantity item + delta)
    \<and> (quantity item = 0 \<and> delta = - 1 \<longrightarrow> max 0 (quantity item + delta) = 0)
    \<and> (\<forall>i \<in> set (store_rows (adjustQuantity Updated item delta page)).
          item_id i = item_id item \<longrightarrow> quantity i = max 0 (quantity item + delta))
    \<and> (\<forall>i \<in> set (items (adjustQuantity Updated item delta page)).
          item_id i = item_id item \<longrightarrow> quantity i = max 0 (quantity item + delta))
    \<and> (\<forall>r \<in> set (store_rows page).
          item_id r = item_id item \<longrightarrow>
            r\<lparr>quantity := max 0 (quantity item + delta)\<rparr>
              \<in> set (store_rows (adjustQuantity Updated item delta page)))
    \<and> (\<forall>r \<in> set (items page).
          item_id r = item_id item \<longrightarrow>
            r\<lparr>quantity := max 0 (quantity item + delta)\<rparr>
              \<in> set (items (adjustQuantity Updated item delta page)))
    \<and> items (adjustQuantity (Failed message) item delta page) = items page
    \<and> store_rows (adjustQuantity (Failed message) item delta page) = store_rows page
    \<and> (quantitiesNonNegative (items page) \<longrightarrow>
         quantitiesNonNegative (items (adjustQuantity answer item delta page)))
    \<and> (quantitiesNonNegative (store_rows page) \<longrightarrow>
         quantitiesNonNegative (store_rows (adjustQuantity answer item delta page)))"
proof -
  let ?q = "max 0 (quantity item + delta)"
  have sum: "addNumbers (quantity item) delta = quantity item + delta"
    using assms by (simp add: exactAdjustment_def addNumbers_exact)
  have set_eq: "setQuantity (item_id item) ?q rows = map (withQuantity (item_id item) ?q) rows"
    for rows
    by (simp add: setQuantity_def withQuantity_def)
  have store: "store_rows (adjustQuantity Updated item delta page)
                 = setQuantity (item_id item) ?q (store_rows page)"
    by (simp add: adjustQuantity_def Let_def sum)
  have local: "items (adjustQuantity Updated item delta page)
                 = setQuantity (item_id item) ?q (items page)"
    by (simp add: adjustQuantity_def Let_def sum)
  have failed: "items (adjustQuantity (Failed message) item delta page) = items page"
    "store_rows (adjustQuantity (Failed message) item delta page) = store_rows page"
    by (simp_all add: adjustQuantity_def Let_def)
  have keep_items: "quantitiesNonNegative (items (adjustQuantity answer item delta page))"
    if "quantitiesNonNegative (items page)"
    using that by (cases answer) (simp_all add: adjustQuantity_def Let_def setQuantity_nonnegative)
  have keep_store: "quantitiesNonNegative (store_rows (adjustQuantity answer item delta page))"
    if "quantitiesNonNegative (store_rows page)"
    using that by (cases answer) (simp_all add: adjustQuantity_def Let_def setQuantity_nonnegative)
  show ?thesis
    unfolding store local
    using failed keep_items keep_store
    by (simp add: set_eq [symmetric] setQuantity_written setQuantity_hit)
qed

theorem adjustQuantity_clamps_witness:
  "exactAdjustment lids (- 3)
   \<and> quantity lids = 1
   \<and> items lidsPage = [oatMilk, lids]
   \<and> store_rows lidsPage = [oatMilk, lids]
   \<and> store_rows (adjustQuantity Updated lids (- 3) lidsPage) = [oatMilk, lids\<lparr>quantity := 0\<rparr>]
   \<and> items (adjustQuantity Updated lids (- 3) lidsPage) = [oatMilk, lids\<lparr>quantity := 0\<rparr>]
   \<and> lids\<lparr>quantity := 0\<rparr> \<noteq> lids"
proof -
  have h: "exactAdjustment lids (- 3)"
    by (simp add: exactAdjustment_def isExactInteger_def lids_def)
  have q: "quantity lids = 1"
    by (simp add: lids_def)
  have p: "items lidsPage = [oatMilk, lids]" "store_rows lidsPage = [oatMilk, lids]"
    by (simp_all add: lidsPage_def)
  have ids: "item_id oatMilk \<noteq> item_id lids"
    by (simp add: oatMilk_def lids_def)
  have changed: "lids\<lparr>quantity := 0\<rparr> \<noteq> lids"
    by (simp add: lids_def)
  from adjustQuantity_clamps [OF h, of lidsPage]
  have "store_rows (adjustQuantity Updated lids (- 3) lidsPage)
          = [oatMilk, lids\<lparr>quantity := 0\<rparr>]"
    and "items (adjustQuantity Updated lids (- 3) lidsPage) = [oatMilk, lids\<lparr>quantity := 0\<rparr>]"
    using ids by (simp_all add: p q withQuantity_def)
  with h q p changed show ?thesis
    by blast
qed

section \<open>Properties of the dashboard's event counts\<close>

lemma foldl_countEvent:
  "foldl countEvent c es =
     c\<lparr>market := market c + countType ''market'' es,
       popup := popup c + countType ''popup'' es,
       catering := catering c + countType ''catering'' es,
       booked := booked c + countStatus ''booked'' es\<rparr>"
proof (induction es arbitrary: c)
  case Nil
  show ?case by (simp add: countType_def countStatus_def)
next
  case (Cons e es)
  show ?case
    unfolding foldl_Cons Cons.IH
    by (simp add: countEvent_def Let_def countType_def countStatus_def)
qed

text \<open>
  C7. For every list of events, \<open>eventCounts\<close> holds the number of events, the numbers of
  events of type market, popup and catering, and the number of events whose status is
  booked.
\<close>

theorem eventCounts_tallies:
  "eventCounts events =
     \<lparr>total = length events,
      market = countType ''market'' events,
      popup = countType ''popup'' events,
      catering = countType ''catering'' events,
      booked = countStatus ''booked'' events\<rparr>"
  by (simp add: eventCounts_def foldl_countEvent)

text \<open>
  The new-event form offers the types market, wedding, corporate, private, popup and
  other: events created through it never count as catering.
\<close>

lemma eventCounts_form_types_no_catering:
  assumes "list_all (\<lambda>e. \<exists>t \<in> set (map fst EVENT_TYPES). event_type e = Some t) events"
  shows "catering (eventCounts events) = 0"
proof -
  have "filter (\<lambda>e. event_type e = Some ''catering'') events = []"
    using assms by (auto simp: filter_empty_conv list_all_iff EVENT_TYPES_def)
  then show ?thesis
    by (simp add: eventCounts_def foldl_countEvent countType_def)
qed

section \<open>Properties of the grouping of goals\<close>

lemmas example_goals =
  goal_menu_def goal_cups_def goal_permit_def goal_barista_def goal_grinder_def goal_tax_def
  goal_markets_def goal_syrup_def goal_cart_def

lemma pushTo_keys: "map fst (pushTo key goal m) = map fst m"
  by (induction m) (auto simp: pushTo_def)

lemma map_of_pushTo:
  "map_of (pushTo key goal m) k
     = (if k = key then map_option (\<lambda>bucket. bucket @ [goal]) (map_of m k) else map_of m k)"
  by (induction m) (auto simp: pushTo_def)

lemma bucketOf_Cons:
  "bucketOf (g # goals) k
     = (if \<not> is_done g \<and> month g = k then g # bucketOf goals k else bucketOf goals k)"
  by (simp add: bucketOf_def activeGoals_def)

lemma activeGoals_Cons:
  "activeGoals (g # goals) = (if is_done g then activeGoals goals else g # activeGoals goals)"
  by (simp add: activeGoals_def)

text \<open>
  The loop, started on an object with distinct keys, ends without a TypeError when no
  not-done goal names an inherited property. It keeps the keys distinct, adds the months
  of the not-done goals to the keys, and appends to each bucket the not-done goals of its
  month in their order.
\<close>

lemma groupInto_buckets:
  assumes "distinct (map fst m)"
    and "list_all (\<lambda>g. month g \<notin> set objectPrototypeKeys) (activeGoals goals)"
  shows "\<exists>m'. groupInto m goals = Inr m'
           \<and> distinct (map fst m')
           \<and> set (map fst m') = set (map fst m) \<union> set (map month (activeGoals goals))
           \<and> (\<forall>k \<in> set (map fst m').
                map_of m' k
                  = Some ((case map_of m k of None \<Rightarrow> [] | Some b \<Rightarrow> b) @ bucketOf goals k))"
  using assms
proof (induction goals arbitrary: m)
  case Nil
  then show ?case
    by (auto simp: bucketOf_def activeGoals_def weak_map_of_SomeI split: option.splits)
next
  case (Cons g goals)
  show ?case
  proof (cases "is_done g")
    case True
    with Cons.prems have "list_all (\<lambda>g. month g \<notin> set objectPrototypeKeys) (activeGoals goals)"
      by (simp add: activeGoals_Cons)
    from Cons.IH [OF Cons.prems(1) this] True show ?thesis
      by (simp add: activeGoals_Cons bucketOf_Cons)
  next
    case False
    with Cons.prems have own: "month g \<notin> set objectPrototypeKeys"
      and rest: "list_all (\<lambda>g. month g \<notin> set objectPrototypeKeys) (activeGoals goals)"
      by (simp_all add: activeGoals_Cons)
    show ?thesis
    proof (cases "map_of m (month g)")
      case None
      then have fresh: "month g \<notin> set (map fst m)"
        by (simp add: map_of_eq_None_iff)
      let ?m1 = "m @ [(month g, [g])]"
      have d1: "distinct (map fst ?m1)"
        using Cons.prems(1) fresh by simp
      from Cons.IH [OF d1 rest] obtain m' where
        run: "groupInto ?m1 goals = Inr m'" and
        dist: "distinct (map fst m')" and
        keys: "set (map fst m') = set (map fst ?m1) \<union> set (map month (activeGoals goals))" and
        buckets: "\<forall>k \<in> set (map fst m').
                    map_of m' k = Some ((case map_of ?m1 k of None \<Rightarrow> [] | Some b \<Rightarrow> b)
                                         @ bucketOf goals k)"
        by blast
      have look: "map_of ?m1 k = (if k = month g then Some [g] else map_of m k)" for k
        using None by (auto simp: map_add_def split: option.splits)
      have "groupInto m (g # goals) = Inr m'"
        using False None own run by simp
      moreover have "set (map fst m') = set (map fst m) \<union> set (map month (activeGoals (g # goals)))"
        using keys False by (auto simp: activeGoals_Cons)
      moreover have "\<forall>k \<in> set (map fst m').
          map_of m' k = Some ((case map_of m k of None \<Rightarrow> [] | Some b \<Rightarrow> b)
                               @ bucketOf (g # goals) k)"
      proof
        fix k
        assume "k \<in> set (map fst m')"
        with buckets have
          "map_of m' k = Some ((case map_of ?m1 k of None \<Rightarrow> [] | Some b \<Rightarrow> b)
                                @ bucketOf goals k)"
          by blast
        then have "map_of m' k
            = Some ((case (if k = month g then Some [g] else map_of m k) of
                       None \<Rightarrow> [] | Some b \<Rightarrow> b) @ bucketOf goals k)"
          by (simp only: look)
        then show "map_of m' k = Some ((case map_of m k of None \<Rightarrow> [] | Some b \<Rightarrow> b)
                                        @ bucketOf (g # goals) k)"
          using False None by (cases "k = month g") (simp_all add: bucketOf_Cons)
      qed
      ultimately show ?thesis using dist by blast
    next
      case (Some bucket)
      then have present: "month g \<in> set (map fst m)"
        by (metis map_of_eq_None_iff option.distinct(1) set_map)
      let ?m1 = "pushTo (month g) g m"
      have d1: "distinct (map fst ?m1)"
        using Cons.prems(1) by (simp add: pushTo_keys)
      from Cons.IH [OF d1 rest] obtain m' where
        run: "groupInto ?m1 goals = Inr m'" and
        dist: "distinct (map fst m')" and
        keys: "set (map fst m') = set (map fst ?m1) \<union> set (map month (activeGoals goals))" and
        buckets: "\<forall>k \<in> set (map fst m').
                    map_of m' k = Some ((case map_of ?m1 k of None \<Rightarrow> [] | Some b \<Rightarrow> b)
                                         @ bucketOf goals k)"
        by blast
      have "groupInto m (g # goals) = Inr m'"
        using False Some run by simp
      moreover have "set (map fst m') = set (map fst m) \<union> set (map month (activeGoals (g # goals)))"
        using keys False present by (auto simp: activeGoals_Cons pushTo_keys)
      moreover have "\<forall>k \<in> set (map fst m').
          map_of m' k = Some ((case map_of m k of None \<Rightarrow> [] | Some b \<Rightarrow> b)
                               @ bucketOf (g # goals) k)"
      proof
        fix k
        assume "k \<in> set (map fst m')"
        with buckets have
          "map_of m' k = Some ((case map_of ?m1 k of None \<Rightarrow> [] | Some b \<Rightarrow> b)
                                @ bucketOf goals k)"
          by blast
        then show "map_of m' k = Some ((case map_of m k of None \<Rightarrow> [] | Some b \<Rightarrow> b)
                                        @ bucketOf (g # goals) k)"
          using False Some
          by (cases "k = month g") (simp_all add: map_of_pushTo bucketOf_Cons)
      qed
      ultimately show ?thesis using dist by blast
    qed
  qed
qed
lemma mset_objectEntries: "mset (objectEntries m) = mset m"
  by (simp add: objectEntries_def case_prod_unfold)

lemma mset_insertEntry: "mset (insertEntry x ys) = add_mset x (mset ys)"
  by (induction ys) simp_all

lemma mset_sortEntries: "mset (sortEntries es) = mset es"
  by (induction es) (simp_all add: sortEntries_def mset_insertEntry)

lemma set_insertEntry: "set (insertEntry x ys) = insert x (set ys)"
  by (induction ys) auto

lemma sorted_insertEntry:
  assumes "sorted_wrt (<) (map fst ys)" and "fst x \<notin> set (map fst ys)"
  shows "sorted_wrt (<) (map fst (insertEntry x ys))"
  using assms
proof (induction ys)
  case Nil
  show ?case by simp
next
  case (Cons y ys)
  show ?case
  proof (cases "fst x < fst y")
    case True
    with Cons.prems show ?thesis
      by (auto simp: compareKeys_def)
  next
    case False
    with Cons.prems have after: "fst y < fst x"
      by auto
    from Cons have "sorted_wrt (<) (map fst (insertEntry x ys))"
      by simp
    with Cons.prems False after show ?thesis
      by (auto simp: compareKeys_def set_insertEntry)
  qed
qed

lemma sorted_sortEntries:
  "distinct (map fst es) \<Longrightarrow> sorted_wrt (<) (map fst (sortEntries es))"
proof (induction es)
  case Nil
  show ?case by (simp add: sortEntries_def)
next
  case (Cons e es)
  have step: "sortEntries (e # es) = insertEntry e (sortEntries es)"
    by (simp add: sortEntries_def)
  have "set (sortEntries es) = set es"
    using mset_sortEntries [of es] by (metis set_mset_mset)
  with Cons show ?case
    unfolding step by (intro sorted_insertEntry) auto
qed

lemma strictly_sorted_activeMonths: "sorted_wrt (<) (activeMonths goals)"
  by (simp add: activeMonths_def strict_sorted_iff)

lemma set_activeMonths: "set (activeMonths goals) = set (map month (activeGoals goals))"
  by (simp add: activeMonths_def)

text \<open>
  When no not-done goal names an inherited property, the function returns, and what it
  returns is the list of buckets of the specification.
\<close>

lemma groupActiveByMonth_spec:
  assumes "monthsAreOwnKeys goals"
  shows "groupActiveByMonth goals = Inr (groupActive_spec goals)"
proof -
  from assms have own: "list_all (\<lambda>g. month g \<notin> set objectPrototypeKeys) (activeGoals goals)"
    by (simp add: monthsAreOwnKeys_def)
  have empty: "distinct (map fst ([] :: (string \<times> Goal list) list))"
    by simp
  from groupInto_buckets [OF empty own] obtain m where
    run: "groupInto [] goals = Inr m" and
    dist: "distinct (map fst m)" and
    keys0: "set (map fst m)
              = set (map fst ([] :: (string \<times> Goal list) list))
                \<union> set (map month (activeGoals goals))" and
    buckets0: "\<forall>k \<in> set (map fst m).
                 map_of m k
                   = Some ((case map_of ([] :: (string \<times> Goal list) list) k of
                              None \<Rightarrow> [] | Some b \<Rightarrow> b) @ bucketOf goals k)"
    by blast
  from keys0 have keys: "set (map fst m) = set (map month (activeGoals goals))"
    by simp
  from buckets0 have buckets: "\<forall>k \<in> set (map fst m). map_of m k = Some (bucketOf goals k)"
    by simp
  define r where "r = sortEntries (objectEntries m)"
  have perm: "mset r = mset m"
    by (simp add: r_def mset_sortEntries mset_objectEntries)
  then have same: "set r = set m"
    by (metis set_mset_mset)
  have "mset (map fst (objectEntries m)) = mset (map fst m)"
    using mset_objectEntries [of m] by (metis mset_map)
  with dist have "distinct (map fst (objectEntries m))"
    by (metis mset_eq_imp_distinct_iff)
  then have sorted: "sorted_wrt (<) (map fst r)"
    unfolding r_def by (rule sorted_sortEntries)
  have "set (map fst r) = set (activeMonths goals)"
    using same keys by (simp add: set_activeMonths)
  with sorted strictly_sorted_activeMonths [of goals]
  have ks: "map fst r = activeMonths goals"
    by (simp add: strict_sorted_equal)
  have each: "p = (fst p, bucketOf goals (fst p))" if "p \<in> set r" for p
  proof -
    from that same have "p \<in> set m" by simp
    with dist have "map_of m (fst p) = Some (snd p)"
      by (metis map_of_is_SomeI prod.collapse)
    moreover from \<open>p \<in> set m\<close> buckets have "map_of m (fst p) = Some (bucketOf goals (fst p))"
      by simp
    ultimately show ?thesis
      by (metis option.inject prod.collapse)
  qed
  have "r = map (\<lambda>p. (fst p, bucketOf goals (fst p))) r"
    using each by (simp add: map_idI)
  also have "\<dots> = map (\<lambda>k. (k, bucketOf goals k)) (map fst r)"
    by simp
  finally have "r = groupActive_spec goals"
    by (simp add: ks groupActive_spec_def)
  with run show ?thesis
    by (simp add: groupActiveByMonth_def r_def)
qed

lemma yearMonth_is_own_key: "isYearMonth k \<Longrightarrow> k \<notin> set objectPrototypeKeys"
  by (auto simp: isYearMonth_def objectPrototypeKeys_def)

text \<open>Goals whose months all have the form \<open>YYYY-MM\<close> name no inherited property.\<close>

lemma yearMonth_goals_own_keys:
  "list_all (\<lambda>g. isYearMonth (month g)) goals \<Longrightarrow> monthsAreOwnKeys goals"
  by (auto simp: monthsAreOwnKeys_def activeGoals_def list_all_iff yearMonth_is_own_key)

lemma keys_groupActive_spec: "map fst (groupActive_spec goals) = activeMonths goals"
  by (simp add: groupActive_spec_def comp_def)

lemma mset_filter_disjoint:
  "(\<And>x. x \<in> set xs \<Longrightarrow> \<not> (P x \<and> Q x)) \<Longrightarrow>
     mset (filter P xs) + mset (filter Q xs) = mset (filter (\<lambda>x. P x \<or> Q x) xs)"
  by (induction xs) auto

lemma mset_concat_by_key:
  "distinct ks \<Longrightarrow>
     mset (concat (map (\<lambda>k. filter (\<lambda>x. f x = k) xs) ks))
       = mset (filter (\<lambda>x. f x \<in> set ks) xs)"
proof (induction ks)
  case Nil
  show ?case by simp
next
  case (Cons k ks)
  then have "mset (concat (map (\<lambda>k. filter (\<lambda>x. f x = k) xs) (k # ks)))
               = mset (filter (\<lambda>x. f x = k) xs) + mset (filter (\<lambda>x. f x \<in> set ks) xs)"
    by simp
  also have "\<dots> = mset (filter (\<lambda>x. f x = k \<or> f x \<in> set ks) xs)"
    using Cons.prems by (intro mset_filter_disjoint) auto
  finally show ?case
    by (simp add: disj_commute eq_commute [of k])
qed

lemma goals_of_groupActive_spec:
  "mset (concat (map snd (groupActive_spec goals))) = mset (activeGoals goals)"
proof -
  have "distinct (activeMonths goals)"
    by (simp add: activeMonths_def)
  then have "mset (concat (map (\<lambda>k. filter (\<lambda>g. month g = k) (activeGoals goals))
                             (activeMonths goals)))
               = mset (filter (\<lambda>g. month g \<in> set (activeMonths goals)) (activeGoals goals))"
    by (rule mset_concat_by_key)
  also have "filter (\<lambda>g. month g \<in> set (activeMonths goals)) (activeGoals goals)
               = activeGoals goals"
    by (simp add: set_activeMonths)
  finally show ?thesis
    by (simp add: groupActive_spec_def bucketOf_def comp_def)
qed

text \<open>
  The form of the goals page sets a month from an \<open><input type="month">\<close>, whose value has
  the form \<open>YYYY-MM\<close>, and the type \<open>Goal\<close> documents the same form. Outside of it, a
  not-done goal whose month names a property that every plain object inherits makes the
  grouping throw.
\<close>

lemma groupActiveByMonth_inherited_key:
  "groupActiveByMonth [goal_barista] = Inl TypeError
   \<and> groupActiveByMonth [goal_tax, goal_cart] = Inl TypeError"
  by (simp add: groupActiveByMonth_def objectPrototypeKeys_def goal_barista_def goal_tax_def
      goal_cart_def)

text \<open>
  C5. For every list of goals whose months have the form \<open>YYYY-MM\<close> of the data model, the
  grouping returns the buckets of the goals that are not done: one bucket for each month
  that occurs among them and no other, each bucket holding the not-done goals of its
  month in the order of the input (so none is empty), and the buckets in strictly
  ascending lexicographic order of the month strings.
\<close>

theorem groupActiveByMonth_partitions:
  assumes "list_all (\<lambda>g. isYearMonth (month g)) goals"
  shows "groupActiveByMonth goals = Inr (groupActive_spec goals)
    \<and> sorted_wrt (<) (map fst (groupActive_spec goals))
    \<and> set (map fst (groupActive_spec goals)) = month ` {g \<in> set goals. \<not> is_done g}
    \<and> (\<forall>(k, bucket) \<in> set (groupActive_spec goals).
          bucket = filter (\<lambda>g. \<not> is_done g \<and> month g = k) goals \<and> bucket \<noteq> [])"
proof (intro conjI)
  from assms have "monthsAreOwnKeys goals"
    by (rule yearMonth_goals_own_keys)
  then show "groupActiveByMonth goals = Inr (groupActive_spec goals)"
    by (rule groupActiveByMonth_spec)
  show "sorted_wrt (<) (map fst (groupActive_spec goals))"
    by (simp only: keys_groupActive_spec strictly_sorted_activeMonths)
  show "set (map fst (groupActive_spec goals)) = month ` {g \<in> set goals. \<not> is_done g}"
    by (simp only: keys_groupActive_spec set_activeMonths) (simp add: activeGoals_def)
  show "\<forall>(k, bucket) \<in> set (groupActive_spec goals).
          bucket = filter (\<lambda>g. \<not> is_done g \<and> month g = k) goals \<and> bucket \<noteq> []"
  proof (clarify, intro conjI)
    fix k bucket
    assume "(k, bucket) \<in> set (groupActive_spec goals)"
    then have b: "bucket = bucketOf goals k" and k: "k \<in> set (activeMonths goals)"
      by (auto simp: groupActive_spec_def)
    from b show "bucket = filter (\<lambda>g. \<not> is_done g \<and> month g = k) goals"
      by (simp add: bucketOf_def activeGoals_def conj_commute)
    from k obtain g where "g \<in> set (activeGoals goals)" and "month g = k"
      by (auto simp: set_activeMonths)
    with b show "bucket \<noteq> []"
      by (auto simp: bucketOf_def filter_empty_conv)
  qed
qed

text \<open>The fourth example of the specification.\<close>

theorem groupActiveByMonth_partitions_witness:
  "list_all (\<lambda>g. isYearMonth (month g)) [goal_menu, goal_cups, goal_permit]
   \<and> map month [goal_menu, goal_cups, goal_permit] = [''2025-03'', ''2025-01'', ''2025-01'']
   \<and> map is_done [goal_menu, goal_cups, goal_permit] = [False, False, True]
   \<and> groupActiveByMonth [goal_menu, goal_cups, goal_permit]
       = Inr [(''2025-01'', [goal_cups]), (''2025-03'', [goal_menu])]
   \<and> completedGoals [goal_menu, goal_cups, goal_permit] = [goal_permit]"
proof -
  have h: "list_all (\<lambda>g. isYearMonth (month g)) [goal_menu, goal_cups, goal_permit]"
    by (simp add: isYearMonth_def isDigitOf_def digitValue_def example_goals)
  have s: "groupActive_spec [goal_menu, goal_cups, goal_permit]
             = [(''2025-01'', [goal_cups]), (''2025-03'', [goal_menu])]"
    by (simp add: groupActive_spec_def activeMonths_def activeGoals_def bucketOf_def
        example_goals)
  have c: "completedGoals [goal_menu, goal_cups, goal_permit] = [goal_permit]"
    by (simp add: completedGoals_def example_goals)
  have f: "map month [goal_menu, goal_cups, goal_permit] = [''2025-03'', ''2025-01'', ''2025-01'']
    \<and> map is_done [goal_menu, goal_cups, goal_permit] = [False, False, True]"
    by (simp add: example_goals)
  from h s c f groupActiveByMonth_partitions [OF h] show ?thesis
    by simp
qed

text \<open>
  C6. For every list of goals whose months have the form \<open>YYYY-MM\<close> of the data model, the
  grouping returns buckets that hold no done goal; the goals of the buckets together with
  the completed goals (the done goals of the input) are the goals of the input, each as
  often as it occurs there; and no goal is both in a bucket and among the completed goals.
\<close>

theorem groupActiveByMonth_completedGoals_partition:
  assumes "list_all (\<lambda>g. isYearMonth (month g)) goals"
  shows "\<exists>buckets. groupActiveByMonth goals = Inr buckets
    \<and> list_all (\<lambda>g. \<not> is_done g) (concat (map snd buckets))
    \<and> completedGoals goals = filter is_done goals
    \<and> mset (concat (map snd buckets)) + mset (completedGoals goals) = mset goals
    \<and> set (concat (map snd buckets)) \<union> set (completedGoals goals) = set goals
    \<and> set (concat (map snd buckets)) \<inter> set (completedGoals goals) = {}"
proof -
  let ?buckets = "groupActive_spec goals"
  from assms have "monthsAreOwnKeys goals"
    by (rule yearMonth_goals_own_keys)
  then have run: "groupActiveByMonth goals = Inr ?buckets"
    by (rule groupActiveByMonth_spec)
  have m: "mset (concat (map snd ?buckets)) = mset (activeGoals goals)"
    by (rule goals_of_groupActive_spec)
  then have s: "set (concat (map snd ?buckets)) = set (activeGoals goals)"
    by (metis set_mset_mset)
  have "list_all (\<lambda>g. \<not> is_done g) (concat (map snd ?buckets))"
    unfolding list_all_iff s by (simp add: activeGoals_def)
  moreover have "completedGoals goals = filter is_done goals"
    by (simp add: completedGoals_def)
  moreover have "mset (concat (map snd ?buckets)) + mset (completedGoals goals) = mset goals"
    unfolding m by (simp add: activeGoals_def completedGoals_def)
  moreover have "set (concat (map snd ?buckets)) \<union> set (completedGoals goals) = set goals"
    unfolding s by (auto simp: activeGoals_def completedGoals_def)
  moreover have "set (concat (map snd ?buckets)) \<inter> set (completedGoals goals) = {}"
    unfolding s by (auto simp: activeGoals_def completedGoals_def)
  ultimately show ?thesis
    using run by blast
qed

theorem groupActiveByMonth_completedGoals_partition_witness:
  "list_all (\<lambda>g. isYearMonth (month g)) [goal_grinder, goal_tax, goal_markets, goal_syrup]
   \<and> groupActiveByMonth [goal_grinder, goal_tax, goal_markets, goal_syrup]
       = Inr [(''2024-12'', [goal_syrup]), (''2025-02'', [goal_grinder, goal_markets])]
   \<and> completedGoals [goal_grinder, goal_tax, goal_markets, goal_syrup] = [goal_tax]
   \<and> mset [goal_syrup, goal_grinder, goal_markets] + mset [goal_tax]
       = mset [goal_grinder, goal_tax, goal_markets, goal_syrup]"
proof -
  have h: "list_all (\<lambda>g. isYearMonth (month g)) [goal_grinder, goal_tax, goal_markets, goal_syrup]"
    by (simp add: isYearMonth_def isDigitOf_def digitValue_def example_goals)
  have e: "groupActiveByMonth [goal_grinder, goal_tax, goal_markets, goal_syrup]
             = Inr [(''2024-12'', [goal_syrup]), (''2025-02'', [goal_grinder, goal_markets])]"
    by (simp add: groupActiveByMonth_def sortEntries_def objectEntries_def
        objectPrototypeKeys_def isArrayIndex_def compareKeys_def isDigitOf_def digitValue_def
        pushTo_def example_goals)
  have c: "completedGoals [goal_grinder, goal_tax, goal_markets, goal_syrup] = [goal_tax]"
    by (simp add: completedGoals_def example_goals)
  from groupActiveByMonth_completedGoals_partition [OF h]
  have "mset [goal_syrup, goal_grinder, goal_markets] + mset [goal_tax]
          = mset [goal_grinder, goal_tax, goal_markets, goal_syrup]"
    unfolding e c by auto
  with h e c show ?thesis
    by blast
qed

section \<open>Properties of the new-event form\<close>

lemma MakeDay_civilFromDays:
  "civilFromDays z = (y, m, d) \<Longrightarrow> MakeDay y m (d + n) = z + n"
  by (auto simp: civilFromDays_def MakeDay_def split: prod.splits)

lemma MakeDay_daysFromCivil: "MakeDay y m d = daysFromCivil y m d"
  by (simp add: MakeDay_def daysFromCivil_def Let_def)

text \<open>
  \<open>addDays\<close> moves the local time by whole days and converts the result back to UTC with
  the offset in force at the new local time.
\<close>

lemma addDays_local: "addDays tz t n = TimeClip (UTC tz (LocalTime tz t + n * msPerDay))"
proof -
  obtain y m d where c: "civilFromDays (LocalTime tz t div msPerDay) = (y, m, d)"
    by (metis prod_cases3)
  have "MakeDay y m (d + n) * msPerDay + LocalTime tz t mod msPerDay
          = LocalTime tz t + n * msPerDay"
    unfolding MakeDay_civilFromDays [OF c] by (simp add: algebra_simps)
  then show ?thesis
    by (simp add: addDays_def setDate_def getDate_def c)
qed

lemma addDays_fixedZone: "addDays (fixedZone offset) t n = TimeClip (t + n * msPerDay)"
  by (simp add: addDays_local UTC_def LocalTime_def fixedZone_def)

lemma insertRows_error: "insertRows tz form baseDate is = Inl e \<Longrightarrow> e = RangeError"
  by (cases e) (induction "is", auto split: option.splits sum.splits)

text \<open>A round whose date is beyond the range ends the submission with the RangeError.\<close>

lemma insertRows_invalid_date:
  assumes "i \<in> set is" and "addDays tz baseDate (int i * 7) = None"
  shows "insertRows tz form baseDate is = Inl RangeError"
  using assms
proof (induction "is")
  case Nil
  then show ?case by simp
next
  case (Cons j rest)
  show ?case
  proof (cases "addDays tz baseDate (int j * 7)")
    case None
    then show ?thesis by simp
  next
    case (Some nextDate)
    with Cons.prems have "i \<in> set rest"
      by auto
    with Cons have "insertRows tz form baseDate rest = Inl RangeError"
      by simp
    with Some show ?thesis by simp
  qed
qed

text \<open>When the dates of all rounds are valid, each round pushes its row.\<close>

lemma insertRows_valid_dates:
  assumes "\<And>i. i \<in> set is \<Longrightarrow> addDays tz baseDate (int i * 7) = Some (f i)"
  shows "insertRows tz form baseDate is = Inr (map (\<lambda>i. rowFor form (formatDateForDB (f i))) is)"
  using assms by (induction "is") simp_all

text \<open>
  Every row of a submission is the form's row for some date: the rows share all fields
  but the date.
\<close>

lemma insertRows_share_fields:
  "insertRows tz form baseDate is = Inr rows \<Longrightarrow> r \<in> set rows \<Longrightarrow> \<exists>d. r = rowFor form d"
proof (induction "is" arbitrary: rows)
  case Nil
  then show ?case by simp
next
  case (Cons i rest)
  then show ?case
    by (auto split: option.splits sum.splits)
qed

lemma eventsToInsert_share_fields:
  assumes "eventsToInsert tz form = Inr rows" and "r \<in> set rows"
  shows "r\<lparr>row_date := d\<rparr> = rowFor form d"
proof -
  from assms have "\<exists>d'. r = rowFor form d'"
    by (auto simp: eventsToInsert_def split: if_splits option.splits
        dest: insertRows_share_fields)
  then show ?thesis
    by (auto simp: rowFor_def)
qed

text \<open>
  On a host whose offset from UTC never changes, the rows of a weekly submission whose
  dates are within the range of the time values are dated seven days apart from the
  base date.
\<close>

lemma eventsToInsert_fixedZone:
  assumes "form_date form \<noteq> []" and "newDate (form_date form) = Some baseDate"
    and "isRecurring form" and "rounds (totalWeeks (weeks form)) = Some n"
    and "\<And>i. i < n \<Longrightarrow> \<bar>baseDate + int i * 7 * msPerDay\<bar> \<le> 8640000000000000"
  shows "eventsToInsert (fixedZone offset) form
           = Inr (map (\<lambda>i. rowFor form (formatDateForDB (baseDate + int i * 7 * msPerDay)))
                    [0..<n])"
proof -
  have "insertRows (fixedZone offset) form baseDate [0..<n]
          = Inr (map (\<lambda>i. rowFor form (formatDateForDB (baseDate + int i * 7 * msPerDay)))
                   [0..<n])"
    using assms(5) by (intro insertRows_valid_dates) (simp add: addDays_fixedZone TimeClip_def)
  with assms(1-4) show ?thesis
    by (simp add: eventsToInsert_def)
qed

text \<open>
  On such a host the date of the thirty millionth round is beyond the range of the time
  values whatever the base date: a loop of more rounds, and so the loop on an infinite
  number of weeks, ends with the RangeError.
\<close>

lemma newDate_in_range: "newDate s = Some t \<Longrightarrow> \<bar>t\<bar> \<le> 8640000000000000"
  by (auto simp: newDate_def TimeClip_def split: if_splits option.splits)

lemma insertRows_beyond_range:
  assumes "newDate s = Some baseDate" and "30000000 < n"
  shows "insertRows (fixedZone offset) form baseDate [0..<n] = Inl RangeError"
proof -
  have "\<bar>baseDate\<bar> \<le> 8640000000000000"
    using assms(1) by (rule newDate_in_range)
  then have "addDays (fixedZone offset) baseDate (int 30000000 * 7) = None"
    by (simp add: addDays_fixedZone TimeClip_def msPerDay_def)
  moreover have "30000000 \<in> set [0..<n]"
    using assms(2) by simp
  ultimately show ?thesis
    by (rule insertRows_invalid_date [rotated])
qed

lemma newDate_2025_03_03: "newDate ''2025-03-03'' = Some 1740960000000"
  by code_simp

text \<open>A day that the month does not have runs on into the next month.\<close>

lemma newDate_2025_02_30: "map_option formatDateForDB (newDate ''2025-02-30'') = Some ''2025-03-02''"
  by code_simp

lemma rounds_two_weeks: "rounds (totalWeeks (Fin 2)) = Some 2"
  by code_simp

lemma upt_two: "[0..<2] = [0, Suc 0]"
  by code_simp

lemma addDays_losAngeles_0: "addDays losAngeles2025 1740960000000 0 = Some 1740960000000"
  by code_simp

lemma addDays_losAngeles_7: "addDays losAngeles2025 1740960000000 7 = Some 1741561200000"
  by code_simp

lemma addDays_utc_0: "addDays utcZone 1740960000000 0 = Some 1740960000000"
  by code_simp

lemma addDays_utc_7: "addDays utcZone 1740960000000 7 = Some 1741564800000"
  by code_simp

lemma format_2025_03_03: "formatDateForDB 1740960000000 = ''2025-03-03''"
  by code_simp

lemma format_2025_03_09: "formatDateForDB 1741561200000 = ''2025-03-09''"
  by code_simp

lemma format_2025_03_10: "formatDateForDB 1741564800000 = ''2025-03-10''"
  by code_simp

lemma toISOString_second_row: "toISOString 1741561200000 = ''2025-03-09T23:00:00.000Z''"
  by code_simp

text \<open>A submission with an infinite number of weeks ends with the RangeError.\<close>

lemma eventsToInsert_infinite_weeks:
  "eventsToInsert tz (westsideMarket\<lparr>weeks := PInf\<rparr>) = Inl RangeError"
  by (simp add: eventsToInsert_def westsideMarket_def newDate_2025_03_03 rounds_def
      totalWeeks_def js_max_def)

text \<open>
  C8. The rows of a weekly submission are to be dated seven days apart. The form with the
  start date 2025-03-03 and two weeks, submitted on a host in Pacific time, inserts rows
  dated 2025-03-03 and 2025-03-09, six days apart: \<open>addDays\<close> adds the days in local time,
  where the base date is 16:00 of the day before, daylight saving time begins on
  2025-03-09, and the new local time 16:00 is 23:00 UTC of 2025-03-09, whose UTC date
  \<open>formatDateForDB\<close> stores. On a host in UTC the same form inserts 2025-03-03 and
  2025-03-10.
\<close>

theorem eventsToInsert_dst_six_days:
  "insertedDates losAngeles2025 westsideMarket = Inr [''2025-03-03'', ''2025-03-09'']
   \<and> insertedDates utcZone westsideMarket = Inr [''2025-03-03'', ''2025-03-10'']"
  by (simp add: insertedDates_def eventsToInsert_def westsideMarket_def newDate_2025_03_03
      rounds_two_weeks upt_two addDays_losAngeles_0 addDays_losAngeles_7 addDays_utc_0
      addDays_utc_7 format_2025_03_03 format_2025_03_09 format_2025_03_10 rowFor_def)

end
